theory Spec2Isabelle
  imports Main "HOL-Library.Word"
begin

unbundle bit_operations_syntax

section \<open>JavaScript values\<close>

text \<open>
  A JavaScript string is a sequence of UTF-16 code units; a buffer (\<^verbatim>\<open>ArrayBuffer\<close>,
  \<^verbatim>\<open>Uint8Array\<close>) is a sequence of octets.  String literals of the source are written
  \<open>lit ''...''\<close>.
\<close>

type_synonym jsstring = "16 word list"
type_synonym bytes = "8 word list"

definition lit :: "string \<Rightarrow> jsstring" where
  "lit s = map of_char s"

text \<open>The exceptions the signer and the client can end with.\<close>

datatype error = TypeError | DataError | URIError | Error jsstring

text \<open>\<^verbatim>\<open>Array.prototype.join\<close> on an array of strings.\<close>

fun join :: "jsstring \<Rightarrow> jsstring list \<Rightarrow> jsstring" where
  "join sep [] = []"
| "join sep [x] = x"
| "join sep (x # y # ys) = x @ sep @ join sep (y # ys)"

text \<open>
  \<^verbatim>\<open>String.prototype.padStart(targetLength, padString)\<close>: the string itself when it is
  long enough (or the filler is empty), otherwise the filler repeated and cut to the
  missing length, in front of the string.
\<close>

definition padStart :: "nat \<Rightarrow> jsstring \<Rightarrow> jsstring \<Rightarrow> jsstring" where
  "padStart targetLength padString s =
     (if targetLength \<le> length s \<or> padString = [] then s
      else take (targetLength - length s)
             (concat (replicate (targetLength - length s) padString)) @ s)"

subsection \<open>Numbers as strings\<close>

text \<open>The digits of a natural number in a radix, most significant first.\<close>

function digits :: "nat \<Rightarrow> nat \<Rightarrow> nat list" where
  "digits b n = (if n < b \<or> b < 2 then [n] else digits b (n div b) @ [n mod b])"
  by pat_completeness auto
termination
  by (relation "measure (\<lambda>(b, n). n)") auto

declare digits.simps [simp del]

definition digitChar :: "nat \<Rightarrow> 16 word" where
  "digitChar d = (if d < 10 then of_nat (48 + d) else of_nat (87 + d))"

definition digitCharUpper :: "nat \<Rightarrow> 16 word" where
  "digitCharUpper d = (if d < 10 then of_nat (48 + d) else of_nat (55 + d))"

text \<open>
  \<^verbatim>\<open>Number.prototype.toString(radix)\<close> on an integral number (lowercase digits, a minus
  sign for negative numbers).
\<close>

definition Number_toString :: "nat \<Rightarrow> int \<Rightarrow> jsstring" where
  "Number_toString radix n =
     (if n < 0 then lit ''-'' @ map digitChar (digits radix (nat (- n)))
      else map digitChar (digits radix (nat n)))"

text \<open>
  The numbers the \<^verbatim>\<open>Date\<close> getters return are integers or \<^verbatim>\<open>NaN\<close> (\<open>None\<close>);
  \<^verbatim>\<open>String(x)\<close> and a template literal render them in decimal, \<^verbatim>\<open>NaN\<close> as "NaN".
\<close>

type_synonym jsnumber = "int option"

definition String :: "jsnumber \<Rightarrow> jsstring" where
  "String x = (case x of None \<Rightarrow> lit ''NaN'' | Some n \<Rightarrow> Number_toString 10 n)"

subsection \<open>UTF-16, UTF-8 and percent-encoding\<close>

definition isHighSurrogate :: "16 word \<Rightarrow> bool" where
  "isHighSurrogate c \<longleftrightarrow> 0xD800 \<le> c \<and> c \<le> 0xDBFF"

definition isLowSurrogate :: "16 word \<Rightarrow> bool" where
  "isLowSurrogate c \<longleftrightarrow> 0xDC00 \<le> c \<and> c \<le> 0xDFFF"

text \<open>The code point of a surrogate pair.\<close>

definition pairCodePoint :: "16 word \<Rightarrow> 16 word \<Rightarrow> nat" where
  "pairCodePoint hi lo = 0x10000 + (unat hi - 0xD800) * 0x400 + (unat lo - 0xDC00)"

text \<open>The octets of the UTF-8 encoding of a code point.\<close>

definition utf8 :: "nat \<Rightarrow> nat list" where
  "utf8 cp =
     (if cp < 0x80 then [cp]
      else if cp < 0x800 then [0xC0 + cp div 0x40, 0x80 + cp mod 0x40]
      else if cp < 0x10000 then
        [0xE0 + cp div 0x1000, 0x80 + cp div 0x40 mod 0x40, 0x80 + cp mod 0x40]
      else
        [0xF0 + cp div 0x40000, 0x80 + cp div 0x1000 mod 0x40,
         0x80 + cp div 0x40 mod 0x40, 0x80 + cp mod 0x40])"

text \<open>
  The code points \<^verbatim>\<open>TextEncoder\<close> encodes: a surrogate pair is one code point, an
  unpaired surrogate is replaced by U+FFFD.
\<close>

fun codePoints :: "jsstring \<Rightarrow> nat list" where
  "codePoints [] = []"
| "codePoints [c] = [if isHighSurrogate c \<or> isLowSurrogate c then 0xFFFD else unat c]"
| "codePoints (c # d # ds) =
     (if isHighSurrogate c \<and> isLowSurrogate d then pairCodePoint c d # codePoints ds
      else if isHighSurrogate c \<or> isLowSurrogate c then 0xFFFD # codePoints (d # ds)
      else unat c # codePoints (d # ds))"

definition TextEncoder_encode :: "jsstring \<Rightarrow> bytes" where
  "TextEncoder_encode s = map of_nat (concat (map utf8 (codePoints s)))"

text \<open>
  \<^verbatim>\<open>encodeURIComponent\<close> (ECMA-262, Encode): the unreserved set is the letters and
  digits and \<^verbatim>\<open>- _ . ! ~ * ' ( )\<close>; every other code point becomes the octets of its
  UTF-8 encoding, each as \<^verbatim>\<open>%\<close> and two uppercase hexadecimal digits; an unpaired
  surrogate raises \<^verbatim>\<open>URIError\<close>.
\<close>

definition uriUnreserved :: "16 word \<Rightarrow> bool" where
  "uriUnreserved c \<longleftrightarrow>
     (0x41 \<le> c \<and> c \<le> 0x5A) \<or> (0x61 \<le> c \<and> c \<le> 0x7A) \<or> (0x30 \<le> c \<and> c \<le> 0x39)
     \<or> c \<in> set (lit ''-_.!~*'' @ [0x27] @ lit ''()'')"

definition percentOctet :: "nat \<Rightarrow> jsstring" where
  "percentOctet b = lit ''%'' @ padStart 2 (lit ''0'') (map digitCharUpper (digits 16 b))"

definition percentEncode :: "nat \<Rightarrow> jsstring" where
  "percentEncode cp = concat (map percentOctet (utf8 cp))"

fun encodeURIComponent :: "jsstring \<Rightarrow> error + jsstring" where
  "encodeURIComponent [] = Inr []"
| "encodeURIComponent (c # cs) =
     (if uriUnreserved c then
        (case encodeURIComponent cs of Inl e \<Rightarrow> Inl e | Inr r \<Rightarrow> Inr (c # r))
      else if isLowSurrogate c then Inl URIError
      else if isHighSurrogate c then
        (case cs of
           [] \<Rightarrow> Inl URIError
         | d # ds \<Rightarrow>
             if isLowSurrogate d then
               (case encodeURIComponent ds of
                  Inl e \<Rightarrow> Inl e
                | Inr r \<Rightarrow> Inr (percentEncode (pairCodePoint c d) @ r))
             else Inl URIError)
      else
        (case encodeURIComponent cs of
           Inl e \<Rightarrow> Inl e
         | Inr r \<Rightarrow> Inr (percentEncode (unat c) @ r)))"

text \<open>
  \<^verbatim>\<open>result.replace(/c/g, r)\<close> for a one-character pattern, and
  \<^verbatim>\<open>result.replace(/%2F/g, '/')\<close>: the matches are found left to right and do not
  overlap.
\<close>

definition replaceChar :: "16 word \<Rightarrow> jsstring \<Rightarrow> jsstring \<Rightarrow> jsstring" where
  "replaceChar c r s = concat (map (\<lambda>x. if x = c then r else [x]) s)"

fun replace2F :: "jsstring \<Rightarrow> jsstring" where
  "replace2F (a # b # c # s) =
     (if [a, b, c] = lit ''%2F'' then lit ''/'' @ replace2F s else a # replace2F (b # c # s))"
| "replace2F s = s"

subsection \<open>\<^verbatim>\<open>uriEncode\<close> (signer.ts)\<close>

definition uriEncode :: "jsstring \<Rightarrow> bool \<Rightarrow> error + jsstring" where
  "uriEncode str encodeSlash =
     (case encodeURIComponent str of
        Inl e \<Rightarrow> Inl e
      | Inr result0 \<Rightarrow>
          let result1 = replaceChar 0x21 (lit ''%21'') result0;
              result2 = replaceChar 0x27 (lit ''%27'') result1;
              result3 = replaceChar 0x28 (lit ''%28'') result2;
              result4 = replaceChar 0x29 (lit ''%29'') result3;
              result5 = replaceChar 0x2A (lit ''%2A'') result4
          in Inr (if \<not> encodeSlash then replace2F result5 else result5))"

text \<open>The five one-character replacements of \<^verbatim>\<open>uriEncode\<close>, in the order of the source.\<close>

definition escapeMarks :: "jsstring \<Rightarrow> jsstring" where
  "escapeMarks s =
     replaceChar 0x2A (lit ''%2A'') (replaceChar 0x29 (lit ''%29'')
       (replaceChar 0x28 (lit ''%28'') (replaceChar 0x27 (lit ''%27'')
         (replaceChar 0x21 (lit ''%21'') s))))"

text \<open>
  The encoding of an object key as the specification describes its result, in one pass:
  letters, digits, \<^verbatim>\<open>- _ . ~\<close> and the path separator \<^verbatim>\<open>/\<close> stay as they are, and
  every other code point becomes the percent-encoded octets of its UTF-8 encoding.
\<close>

definition keyLiteral :: "16 word \<Rightarrow> bool" where
  "keyLiteral c \<longleftrightarrow>
     (0x41 \<le> c \<and> c \<le> 0x5A) \<or> (0x61 \<le> c \<and> c \<le> 0x7A) \<or> (0x30 \<le> c \<and> c \<le> 0x39)
     \<or> c \<in> set (lit ''-_.~/'')"

fun encodeKey :: "jsstring \<Rightarrow> error + jsstring" where
  "encodeKey [] = Inr []"
| "encodeKey (c # cs) =
     (if keyLiteral c then
        (case encodeKey cs of Inl e \<Rightarrow> Inl e | Inr r \<Rightarrow> Inr (c # r))
      else if isLowSurrogate c then Inl URIError
      else if isHighSurrogate c then
        (case cs of
           [] \<Rightarrow> Inl URIError
         | d # ds \<Rightarrow>
             if isLowSurrogate d then
               (case encodeKey ds of
                  Inl e \<Rightarrow> Inl e
                | Inr r \<Rightarrow> Inr (percentEncode (pairCodePoint c d) @ r))
             else Inl URIError)
      else
        (case encodeKey cs of
           Inl e \<Rightarrow> Inl e
         | Inr r \<Rightarrow> Inr (percentEncode (unat c) @ r)))"

text \<open>
  \<^verbatim>\<open>String.prototype.isWellFormed\<close>: the string has no unpaired surrogate.
\<close>

fun isWellFormed :: "jsstring \<Rightarrow> bool" where
  "isWellFormed [] = True"
| "isWellFormed (c # cs) =
     (if isLowSurrogate c then False
      else if isHighSurrogate c then
        (case cs of [] \<Rightarrow> False | d # ds \<Rightarrow> isLowSurrogate d \<and> isWellFormed ds)
      else isWellFormed cs)"

text \<open>
  \<^verbatim>\<open>a || b\<close> on an optional string: the right operand is taken when the left one is
  \<^verbatim>\<open>undefined\<close> or the empty string.
\<close>

definition logicalOr :: "jsstring option \<Rightarrow> jsstring \<Rightarrow> jsstring" where
  "logicalOr a b = (case a of None \<Rightarrow> b | Some s \<Rightarrow> if s = [] then b else s)"

section \<open>Dates\<close>

text \<open>
  A \<^verbatim>\<open>Date\<close> holds a time value, the milliseconds since 1970-01-01T00:00:00Z, or is
  invalid (its time value is \<^verbatim>\<open>NaN\<close>).  The getters follow ECMA-262, section
  "Time Values and Time Range" and the following ones: days, years, months and the time
  within the day are computed from the time value with flooring division.
\<close>

datatype Date = TimeValue int | InvalidDate

definition msPerDay :: int where
  "msPerDay = 86400000"

definition Day :: "int \<Rightarrow> int" where
  "Day t = t div msPerDay"

definition DaysInYear :: "int \<Rightarrow> int" where
  "DaysInYear y =
     (if y mod 4 \<noteq> 0 then 365 else if y mod 100 \<noteq> 0 then 366
      else if y mod 400 \<noteq> 0 then 365 else 366)"

definition DayFromYear :: "int \<Rightarrow> int" where
  "DayFromYear y =
     365 * (y - 1970) + (y - 1969) div 4 - (y - 1901) div 100 + (y - 1601) div 400"

definition TimeFromYear :: "int \<Rightarrow> int" where
  "TimeFromYear y = msPerDay * DayFromYear y"

text \<open>
  \<^verbatim>\<open>YearFromTime(t)\<close> is the largest year whose first instant is not after \<open>t\<close>.  It is
  found from an estimate by walking down to a year that is not after \<open>t\<close> and then up
  to the last such year.
\<close>

function yearDown :: "int \<Rightarrow> int \<Rightarrow> int" where
  "yearDown t y = (if t < TimeFromYear y then yearDown t (y - 1) else y)"
  by pat_completeness auto
termination
proof (relation "measure (\<lambda>(t, y). nat (TimeFromYear y - t))")
  show "wf (measure (\<lambda>(t, y). nat (TimeFromYear y - t)))"
    by simp
next
  fix t y :: int
  assume less: "t < TimeFromYear y"
  have "(y - 1 - 1969) div 4 \<le> (y - 1969) div 4"
    by (rule zdiv_mono1) simp_all
  moreover have "(y - 1901) div 100 \<le> (y - 1 - 1901) div 100 + 1"
    by simp
  moreover have "(y - 1 - 1601) div 400 \<le> (y - 1601) div 400"
    by (rule zdiv_mono1) simp_all
  ultimately have "DayFromYear (y - 1) < DayFromYear y"
    by (simp add: DayFromYear_def)
  then have "TimeFromYear (y - 1) < TimeFromYear y"
    by (simp add: TimeFromYear_def msPerDay_def)
  with less show "((t, y - 1), (t, y)) \<in> measure (\<lambda>(t, y). nat (TimeFromYear y - t))"
    by simp
qed

declare yearDown.simps [simp del]

function yearSearch :: "int \<Rightarrow> int \<Rightarrow> int" where
  "yearSearch t y = (if TimeFromYear (y + 1) \<le> t then yearSearch t (y + 1) else y)"
  by pat_completeness auto
termination
proof (relation "measure (\<lambda>(t, y). nat (t - TimeFromYear (y + 1) + 1))")
  show "wf (measure (\<lambda>(t, y). nat (t - TimeFromYear (y + 1) + 1)))"
    by simp
next
  fix t y :: int
  assume le: "TimeFromYear (y + 1) \<le> t"
  have "(y + 1 - 1969) div 4 \<le> (y + 1 + 1 - 1969) div 4"
    by (rule zdiv_mono1) simp_all
  moreover have "(y + 1 + 1 - 1901) div 100 \<le> (y + 1 - 1901) div 100 + 1"
    by simp
  moreover have "(y + 1 - 1601) div 400 \<le> (y + 1 + 1 - 1601) div 400"
    by (rule zdiv_mono1) simp_all
  ultimately have "DayFromYear (y + 1) < DayFromYear (y + 1 + 1)"
    by (simp add: DayFromYear_def)
  then have "TimeFromYear (y + 1) < TimeFromYear (y + 1 + 1)"
    by (simp add: TimeFromYear_def msPerDay_def)
  with le show "((t, y + 1), (t, y)) \<in> measure (\<lambda>(t, y). nat (t - TimeFromYear (y + 1) + 1))"
    by simp
qed

declare yearSearch.simps [simp del]

definition YearFromTime :: "int \<Rightarrow> int" where
  "YearFromTime t = yearSearch t (yearDown t (1970 + Day t div 365))"

definition InLeapYear :: "int \<Rightarrow> int" where
  "InLeapYear t = (if DaysInYear (YearFromTime t) = 366 then 1 else 0)"

definition DayWithinYear :: "int \<Rightarrow> int" where
  "DayWithinYear t = Day t - DayFromYear (YearFromTime t)"

definition MonthFromTime :: "int \<Rightarrow> int" where
  "MonthFromTime t =
     (let d = DayWithinYear t; leap = InLeapYear t
      in if d < 31 then 0
         else if d < 59 + leap then 1
         else if d < 90 + leap then 2
         else if d < 120 + leap then 3
         else if d < 151 + leap then 4
         else if d < 181 + leap then 5
         else if d < 212 + leap then 6
         else if d < 243 + leap then 7
         else if d < 273 + leap then 8
         else if d < 304 + leap then 9
         else if d < 334 + leap then 10
         else 11)"

definition DateFromTime :: "int \<Rightarrow> int" where
  "DateFromTime t =
     (let d = DayWithinYear t; leap = InLeapYear t; m = MonthFromTime t
      in if m = 0 then d + 1
         else if m = 1 then d - 30
         else if m = 2 then d - 58 - leap
         else if m = 3 then d - 89 - leap
         else if m = 4 then d - 119 - leap
         else if m = 5 then d - 150 - leap
         else if m = 6 then d - 180 - leap
         else if m = 7 then d - 211 - leap
         else if m = 8 then d - 242 - leap
         else if m = 9 then d - 272 - leap
         else if m = 10 then d - 303 - leap
         else d - 333 - leap)"

definition HourFromTime :: "int \<Rightarrow> int" where
  "HourFromTime t = (t div 3600000) mod 24"

definition MinFromTime :: "int \<Rightarrow> int" where
  "MinFromTime t = (t div 60000) mod 60"

definition SecFromTime :: "int \<Rightarrow> int" where
  "SecFromTime t = (t div 1000) mod 60"

definition getUTCFullYear :: "Date \<Rightarrow> jsnumber" where
  "getUTCFullYear d = (case d of InvalidDate \<Rightarrow> None | TimeValue t \<Rightarrow> Some (YearFromTime t))"

definition getUTCMonth :: "Date \<Rightarrow> jsnumber" where
  "getUTCMonth d = (case d of InvalidDate \<Rightarrow> None | TimeValue t \<Rightarrow> Some (MonthFromTime t))"

definition getUTCDate :: "Date \<Rightarrow> jsnumber" where
  "getUTCDate d = (case d of InvalidDate \<Rightarrow> None | TimeValue t \<Rightarrow> Some (DateFromTime t))"

definition getUTCHours :: "Date \<Rightarrow> jsnumber" where
  "getUTCHours d = (case d of InvalidDate \<Rightarrow> None | TimeValue t \<Rightarrow> Some (HourFromTime t))"

definition getUTCMinutes :: "Date \<Rightarrow> jsnumber" where
  "getUTCMinutes d = (case d of InvalidDate \<Rightarrow> None | TimeValue t \<Rightarrow> Some (MinFromTime t))"

definition getUTCSeconds :: "Date \<Rightarrow> jsnumber" where
  "getUTCSeconds d = (case d of InvalidDate \<Rightarrow> None | TimeValue t \<Rightarrow> Some (SecFromTime t))"

subsection \<open>\<^verbatim>\<open>formatDate\<close> (signer.ts)\<close>

record FormattedDate =
  short :: jsstring
  long :: jsstring

definition formatDate :: "Date \<Rightarrow> FormattedDate" where
  "formatDate date =
     (let year = getUTCFullYear date;
          month = padStart 2 (lit ''0'') (String (map_option (\<lambda>m. m + 1) (getUTCMonth date)));
          day = padStart 2 (lit ''0'') (String (getUTCDate date));
          hours = padStart 2 (lit ''0'') (String (getUTCHours date));
          minutes = padStart 2 (lit ''0'') (String (getUTCMinutes date));
          seconds = padStart 2 (lit ''0'') (String (getUTCSeconds date))
      in \<lparr> short = String year @ month @ day,
           long = String year @ month @ day @ lit ''T'' @ hours @ minutes @ seconds @ lit ''Z'' \<rparr>)"

text \<open>A number written with exactly two, or exactly four, decimal digits.\<close>

definition twoDigits :: "int \<Rightarrow> jsstring" where
  "twoDigits n = [digitChar (nat n div 10), digitChar (nat n mod 10)]"

definition fourDigits :: "int \<Rightarrow> jsstring" where
  "fourDigits n =
     [digitChar (nat n div 1000), digitChar (nat n div 100 mod 10),
      digitChar (nat n div 10 mod 10), digitChar (nat n mod 10)]"

section \<open>The Web Crypto primitives\<close>

text \<open>
  \<^verbatim>\<open>crypto.subtle.digest('SHA-256', data)\<close> computes SHA-256 (FIPS 180-4) and
  \<^verbatim>\<open>crypto.subtle.sign('HMAC', key, data)\<close> with hash SHA-256 computes HMAC (RFC 2104,
  FIPS 198-1) of the data under the raw key.
\<close>

type_synonym sha256_state =
  "32 word \<times> 32 word \<times> 32 word \<times> 32 word \<times> 32 word \<times> 32 word \<times> 32 word \<times> 32 word"

text \<open>
  The sixty-four round constants are the first thirty-two bits of the fractional parts of
  the cube roots of the first sixty-four primes (FIPS 180-4, section 4.2.2): for a prime
  \<open>p\<close>, the low 32 bits of the integer cube root of \<open>p * 2 ^ 96\<close>.
\<close>

definition isPrime :: "nat \<Rightarrow> bool" where
  "isPrime p \<longleftrightarrow> 2 \<le> p \<and> list_all (\<lambda>d. p mod d \<noteq> 0) [2 ..< p]"

fun cubeRootBits :: "nat \<Rightarrow> nat \<Rightarrow> nat \<Rightarrow> nat" where
  "cubeRootBits n 0 r = r"
| "cubeRootBits n (Suc i) r =
     cubeRootBits n i (if (r + 2 ^ i) ^ 3 \<le> n then r + 2 ^ i else r)"

definition cubeRoot :: "nat \<Rightarrow> nat" where
  "cubeRoot n = cubeRootBits n 40 0"

definition sha256_K :: "32 word list" where
  "sha256_K = map (\<lambda>p. of_nat (cubeRoot (p * 2 ^ 96))) (filter isPrime [2 ..< 312])"

definition sha256_H0 :: sha256_state where
  "sha256_H0 =
     (0x6a09e667, 0xbb67ae85, 0x3c6ef372, 0xa54ff53a,
      0x510e527f, 0x9b05688c, 0x1f83d9ab, 0x5be0cd19)"

definition sha256_pad :: "bytes \<Rightarrow> bytes" where
  "sha256_pad m =
     m @ [0x80] @ replicate ((64 - (length m + 9) mod 64) mod 64) 0
       @ map (\<lambda>i. of_nat ((8 * length m) div 2 ^ (8 * (7 - i)))) [0 ..< 8]"

fun be32 :: "bytes \<Rightarrow> 32 word list" where
  "be32 (a # b # c # d # bs) =
     (push_bit 24 (ucast a) OR push_bit 16 (ucast b) OR push_bit 8 (ucast c) OR ucast d)
       # be32 bs"
| "be32 bs = []"

definition be32_bytes :: "32 word \<Rightarrow> bytes" where
  "be32_bytes w = [ucast (drop_bit 24 w), ucast (drop_bit 16 w), ucast (drop_bit 8 w), ucast w]"

fun sha256_schedule :: "nat \<Rightarrow> 32 word list \<Rightarrow> 32 word list" where
  "sha256_schedule 0 w = w"
| "sha256_schedule (Suc n) w =
     (let i = length w;
          w15 = w ! (i - 15);
          w2 = w ! (i - 2);
          s0 = word_rotr 7 w15 XOR word_rotr 18 w15 XOR drop_bit 3 w15;
          s1 = word_rotr 17 w2 XOR word_rotr 19 w2 XOR drop_bit 10 w2
      in sha256_schedule n (w @ [w ! (i - 16) + s0 + w ! (i - 7) + s1]))"

fun sha256_round :: "sha256_state \<Rightarrow> 32 word \<times> 32 word \<Rightarrow> sha256_state" where
  "sha256_round (a, b, c, d, e, f, g, h) (k, w) =
     (let S1 = word_rotr 6 e XOR word_rotr 11 e XOR word_rotr 25 e;
          ch = (e AND f) XOR (NOT e AND g);
          temp1 = h + S1 + ch + k + w;
          S0 = word_rotr 2 a XOR word_rotr 13 a XOR word_rotr 22 a;
          maj = (a AND b) XOR (a AND c) XOR (b AND c);
          temp2 = S0 + maj
      in (temp1 + temp2, a, b, c, d + temp1, e, f, g))"

fun sha256_add :: "sha256_state \<Rightarrow> sha256_state \<Rightarrow> sha256_state" where
  "sha256_add (a, b, c, d, e, f, g, h) (a', b', c', d', e', f', g', h') =
     (a + a', b + b', c + c', d + d', e + e', f + f', g + g', h + h')"

definition sha256_compress :: "sha256_state \<Rightarrow> bytes \<Rightarrow> sha256_state" where
  "sha256_compress H block =
     sha256_add H (foldl sha256_round H (zip sha256_K (sha256_schedule 48 (be32 block))))"

function sha256_blocks :: "sha256_state \<Rightarrow> bytes \<Rightarrow> sha256_state" where
  "sha256_blocks H m =
     (if length m < 64 then H else sha256_blocks (sha256_compress H (take 64 m)) (drop 64 m))"
  by pat_completeness auto
termination
  by (relation "measure (\<lambda>(H, m). length m)") auto

declare sha256_blocks.simps [simp del]

fun sha256_output :: "sha256_state \<Rightarrow> bytes" where
  "sha256_output (a, b, c, d, e, f, g, h) =
     concat (map be32_bytes [a, b, c, d, e, f, g, h])"

definition SHA256 :: "bytes \<Rightarrow> bytes" where
  "SHA256 m = sha256_output (sha256_blocks sha256_H0 (sha256_pad m))"

definition HMAC_SHA256 :: "bytes \<Rightarrow> bytes \<Rightarrow> bytes" where
  "HMAC_SHA256 k m =
     (let k0 = (if 64 < length k then SHA256 k else k);
          k1 = k0 @ replicate (64 - length k0) 0
      in SHA256 (map (\<lambda>b. b XOR 0x5c) k1 @ SHA256 (map (\<lambda>b. b XOR 0x36) k1 @ m)))"

text \<open>
  \<^verbatim>\<open>crypto.subtle.importKey('raw', keyData, {name: 'HMAC', hash: 'SHA-256'}, ...)\<close>:
  key data that is no buffer (\<open>None\<close>: \<^verbatim>\<open>undefined\<close>) is rejected with a
  \<^verbatim>\<open>TypeError\<close>, and the HMAC import of the Web Cryptography API rejects key data of
  length zero with a \<^verbatim>\<open>DataError\<close>.
\<close>

definition importKey :: "bytes option \<Rightarrow> error + bytes" where
  "importKey keyData =
     (case keyData of
        None \<Rightarrow> Inl TypeError
      | Some k \<Rightarrow> if k = [] then Inl DataError else Inr k)"

section \<open>The signer (signer.ts)\<close>

text \<open>
  The key argument of \<^verbatim>\<open>hmacSha256\<close> is declared \<^verbatim>\<open>ArrayBuffer | string\<close>; the types
  are erased when the code runs, and the value is \<^verbatim>\<open>undefined\<close> when the caller's
  object has no \<^verbatim>\<open>secretAccessKey\<close> property.
\<close>

datatype HmacKey = KeyString jsstring | KeyBuffer bytes | KeyUndefined

definition hmacSha256 :: "HmacKey \<Rightarrow> jsstring \<Rightarrow> error + bytes" where
  "hmacSha256 key data =
     (let keyData =
            (case key of
               KeyString s \<Rightarrow> Some (TextEncoder_encode s)
             | KeyBuffer b \<Rightarrow> Some b
             | KeyUndefined \<Rightarrow> None)
      in case importKey keyData of
           Inl e \<Rightarrow> Inl e
         | Inr cryptoKey \<Rightarrow> Inr (HMAC_SHA256 cryptoKey (TextEncoder_encode data)))"

definition bufferToHex :: "bytes \<Rightarrow> jsstring" where
  "bufferToHex buffer =
     join [] (map (\<lambda>b. padStart 2 (lit ''0'') (Number_toString 16 (uint b))) buffer)"

subsection \<open>The \<^verbatim>\<open>Headers\<close> collection\<close>

text \<open>
  A \<^verbatim>\<open>Headers\<close> object is a list of name and value pairs; names are compared without
  regard to ASCII case.  \<^verbatim>\<open>set(name, value)\<close> (Fetch standard) converts both arguments
  to byte strings, which is a \<^verbatim>\<open>TypeError\<close> for a code unit above U+00FF; it removes
  the leading and trailing HTTP white space (tab, line feed, carriage return, space)
  from the value; it throws a \<^verbatim>\<open>TypeError\<close> if the name is not a token or if what is
  left of the value contains NUL, a line feed or a carriage return; then it overwrites
  the first entry of that name and removes the others, or appends a new entry.
\<close>

type_synonym Headers = "(string \<times> jsstring) list"

definition asciiLower :: "char \<Rightarrow> char" where
  "asciiLower c =
     (if (65::nat) \<le> of_char c \<and> of_char c \<le> (90::nat) then char_of (of_char c + (32::nat))
      else c)"

definition sameName :: "string \<Rightarrow> string \<Rightarrow> bool" where
  "sameName a b \<longleftrightarrow> map asciiLower a = map asciiLower b"

definition isByteString :: "jsstring \<Rightarrow> bool" where
  "isByteString v \<longleftrightarrow> list_all (\<lambda>c. c \<le> 0xFF) v"

definition isHTTPWhitespace :: "16 word \<Rightarrow> bool" where
  "isHTTPWhitespace c \<longleftrightarrow> c = 0x09 \<or> c = 0x0A \<or> c = 0x0D \<or> c = 0x20"

definition headerValueNormalize :: "jsstring \<Rightarrow> jsstring" where
  "headerValueNormalize v =
     rev (dropWhile isHTTPWhitespace (rev (dropWhile isHTTPWhitespace v)))"

text \<open>
  A header name is a non-empty token: letters, digits and
  \<^verbatim>\<open>! # $ % & ' * + - . ^ _ ` | ~\<close>.  A header value, once normalized, is any byte
  string without NUL, line feed and carriage return.
\<close>

definition isTokenChar :: "char \<Rightarrow> bool" where
  "isTokenChar c \<longleftrightarrow>
     (let n = (of_char c :: nat)
      in (0x30 \<le> n \<and> n \<le> 0x39) \<or> (0x41 \<le> n \<and> n \<le> 0x5A) \<or> (0x61 \<le> n \<and> n \<le> 0x7A)
         \<or> n \<in> set [0x21, 0x23, 0x24, 0x25, 0x26, 0x27, 0x2A, 0x2B, 0x2D, 0x2E, 0x5E, 0x5F,
                     0x60, 0x7C, 0x7E])"

definition isHeaderName :: "string \<Rightarrow> bool" where
  "isHeaderName name \<longleftrightarrow> name \<noteq> [] \<and> list_all isTokenChar name"

definition isHeaderValue :: "jsstring \<Rightarrow> bool" where
  "isHeaderValue v \<longleftrightarrow> list_all (\<lambda>c. c \<noteq> 0x00 \<and> c \<noteq> 0x0A \<and> c \<noteq> 0x0D) v"

fun Headers_overwrite :: "Headers \<Rightarrow> string \<Rightarrow> jsstring \<Rightarrow> Headers" where
  "Headers_overwrite [] name v = []"
| "Headers_overwrite ((n, x) # h) name v =
     (if sameName n name then (n, v) # filter (\<lambda>(m, y). \<not> sameName m name) h
      else (n, x) # Headers_overwrite h name v)"

definition Headers_set :: "Headers \<Rightarrow> string \<Rightarrow> jsstring \<Rightarrow> error + Headers" where
  "Headers_set h name v =
     (if isByteString v then
        let value = headerValueNormalize v
        in if isHeaderName name \<and> isHeaderValue value then
             if list_ex (\<lambda>(n, x). sameName n name) h
             then Inr (Headers_overwrite h name value)
             else Inr (h @ [(name, value)])
           else Inl TypeError
      else Inl TypeError)"

fun Headers_get :: "Headers \<Rightarrow> string \<Rightarrow> jsstring option" where
  "Headers_get [] name = None"
| "Headers_get ((n, x) # h) name = (if sameName n name then Some x else Headers_get h name)"

subsection \<open>The client's records (client.ts)\<close>

text \<open>
  They are declared before those of the signer, so that a field name shared by both
  (\<open>region\<close>, \<open>endpoint\<close>, \<open>debug\<close>, ...) means the field of the signer's options
  unless it is written with the name of the client's record.  The property \<^verbatim>\<open>method\<close> is
  the field \<open>method'\<close>.
\<close>

record TOSClientOptions =
  region :: jsstring
  endpoint :: jsstring
  accessKeyId :: jsstring
  accessKeySecret :: jsstring
  debug :: "bool option"

record UploadOptions =
  contentType :: "jsstring option"

text \<open>The second argument of \<^verbatim>\<open>fetch\<close> and the part of its response the client reads.\<close>

record RequestInit =
  method' :: jsstring
  body :: "bytes option"
  headers :: Headers

record Response =
  ok :: bool
  status :: int
  responseText :: jsstring
  responseBlob :: bytes

subsection \<open>\<^verbatim>\<open>TOSSignOptions\<close>\<close>

text \<open>
  The properties \<^verbatim>\<open>signTOSRequest\<close> reads from its argument.  The interface declares
  \<^verbatim>\<open>secretAccessKey: string\<close>, but an object built elsewhere may lack the property, and
  reading it then gives \<^verbatim>\<open>undefined\<close> (\<open>None\<close>).  Further properties of the
  argument are carried by extensions of the record and are not read by the signer.
\<close>

record TOSSignOptions =
  method' :: jsstring
  bucket :: jsstring
  key :: jsstring
  region :: jsstring
  endpoint :: jsstring
  accessKeyId :: jsstring
  secretAccessKey :: "jsstring option"
  contentType :: "jsstring option"
  contentSha256 :: "jsstring option"
  date :: "Date option"
  debug :: "bool option"

text \<open>The object literals of \<^verbatim>\<open>TOSClient\<close> carry the secret as \<^verbatim>\<open>accessKeySecret\<close>.\<close>

record ClientSignOptions = TOSSignOptions +
  accessKeySecret :: jsstring

text \<open>
  \<^verbatim>\<open>TOSClient.list\<close> (a later revision of client.ts) passes its custom headers and
  its query string besides.
\<close>

record ListSignOptions = ClientSignOptions +
  customHeaders :: "(jsstring \<times> jsstring) list"
  queryString :: jsstring

subsection \<open>\<^verbatim>\<open>signTOSRequest\<close>\<close>

definition newline :: jsstring where
  "newline = [0x0A]"

definition host :: "jsstring \<Rightarrow> jsstring \<Rightarrow> jsstring" where
  "host bucket' endpoint' = bucket' @ lit ''.'' @ endpoint'"

definition uri :: "jsstring \<Rightarrow> error + jsstring" where
  "uri key' =
     (case uriEncode key' False of Inl e \<Rightarrow> Inl e | Inr encoded \<Rightarrow> Inr (lit ''/'' @ encoded))"

definition payloadHash :: "jsstring option \<Rightarrow> jsstring" where
  "payloadHash contentSha256' = logicalOr contentSha256' (lit ''UNSIGNED-PAYLOAD'')"

definition canonicalHeaders :: "jsstring \<Rightarrow> jsstring \<Rightarrow> jsstring \<Rightarrow> jsstring" where
  "canonicalHeaders host' payloadHash' long' =
     join newline
       [lit ''host:'' @ host',
        lit ''x-tos-content-sha256:'' @ payloadHash',
        lit ''x-tos-date:'' @ long']"

definition signedHeaders :: jsstring where
  "signedHeaders = lit ''host;x-tos-content-sha256;x-tos-date''"

definition canonicalRequest :: "jsstring \<Rightarrow> jsstring \<Rightarrow> jsstring \<Rightarrow> jsstring \<Rightarrow> jsstring" where
  "canonicalRequest method'' uri' canonicalHeaders' payloadHash' =
     join newline [method'', uri', [], canonicalHeaders', [], signedHeaders, payloadHash']"

definition credentialScope :: "jsstring \<Rightarrow> jsstring \<Rightarrow> jsstring" where
  "credentialScope short' region' = short' @ lit ''/'' @ region' @ lit ''/tos/request''"

definition stringToSign :: "jsstring \<Rightarrow> jsstring \<Rightarrow> jsstring \<Rightarrow> jsstring" where
  "stringToSign long' credentialScope' canonicalRequestHashHex =
     join newline [lit ''TOS4-HMAC-SHA256'', long', credentialScope', canonicalRequestHashHex]"

definition authorization :: "jsstring \<Rightarrow> jsstring \<Rightarrow> jsstring \<Rightarrow> jsstring" where
  "authorization accessKeyId' credentialScope' signatureHex =
     lit ''TOS4-HMAC-SHA256 Credential='' @ accessKeyId' @ lit ''/'' @ credentialScope'
       @ lit '', SignedHeaders='' @ signedHeaders @ lit '', Signature='' @ signatureHex"

text \<open>
  The function reads the clock when no \<^verbatim>\<open>date\<close> is given (\<open>now\<close> is the value of
  \<^verbatim>\<open>new Date()\<close>).  Its result is the lines written with \<^verbatim>\<open>console.log\<close> and the
  outcome of the promise: the exception it is rejected with, or the headers.  The
  exception may come from the encoding of the key, from the import of an HMAC key, or,
  after the console lines are written, from one of the five calls of \<^verbatim>\<open>headers.set\<close>.
\<close>

definition signTOSRequest ::
  "Date \<Rightarrow> 'a TOSSignOptions_scheme \<Rightarrow> jsstring list \<times> (error + Headers)" where
  "signTOSRequest now options =
     (let contentType' =
            (case contentType options of
               None \<Rightarrow> lit ''application/octet-stream'' | Some c \<Rightarrow> c);
          date' = (case date options of None \<Rightarrow> now | Some d \<Rightarrow> d);
          debug' = (case debug options of None \<Rightarrow> False | Some b \<Rightarrow> b);
          dates = formatDate date';
          host' = host (bucket options) (endpoint options)
      in case uri (key options) of
           Inl e \<Rightarrow> ([], Inl e)
         | Inr uri' \<Rightarrow>
     (let payloadHash' = payloadHash (contentSha256 options);
          canonicalHeaders' = canonicalHeaders host' payloadHash' (long dates);
          canonicalRequest' = canonicalRequest (method' options) uri' canonicalHeaders' payloadHash';
          log1 =
            (if debug' then [lit ''[TOS Signer] Canonical Request: '' @ canonicalRequest']
             else []);
          canonicalRequestHashHex = bufferToHex (SHA256 (TextEncoder_encode canonicalRequest'));
          credentialScope' = credentialScope (short dates) (region options);
          stringToSign' = stringToSign (long dates) credentialScope' canonicalRequestHashHex;
          log2 =
            log1 @ (if debug' then [lit ''[TOS Signer] String to Sign: '' @ stringToSign']
                    else [])
      in case hmacSha256
                (case secretAccessKey options of
                   None \<Rightarrow> KeyUndefined | Some s \<Rightarrow> KeyString s)
                (short dates) of
           Inl e \<Rightarrow> (log2, Inl e)
         | Inr kDate \<Rightarrow>
        (case hmacSha256 (KeyBuffer kDate) (region options) of
           Inl e \<Rightarrow> (log2, Inl e)
         | Inr kRegion \<Rightarrow>
        (case hmacSha256 (KeyBuffer kRegion) (lit ''tos'') of
           Inl e \<Rightarrow> (log2, Inl e)
         | Inr kService \<Rightarrow>
        (case hmacSha256 (KeyBuffer kService) (lit ''request'') of
           Inl e \<Rightarrow> (log2, Inl e)
         | Inr kSigning \<Rightarrow>
        (case hmacSha256 (KeyBuffer kSigning) stringToSign' of
           Inl e \<Rightarrow> (log2, Inl e)
         | Inr signature \<Rightarrow>
     (let signatureHex = bufferToHex signature;
          log3 =
            log2 @ (if debug' then [lit ''[TOS Signer] Signature: '' @ signatureHex] else []);
          authorization' = authorization (accessKeyId options) credentialScope' signatureHex;
          headers0 = []
      in case Headers_set headers0 ''Host'' host' of
           Inl e \<Rightarrow> (log3, Inl e)
         | Inr headers1 \<Rightarrow>
        (case Headers_set headers1 ''X-Tos-Date'' (long dates) of
           Inl e \<Rightarrow> (log3, Inl e)
         | Inr headers2 \<Rightarrow>
        (case Headers_set headers2 ''X-Tos-Content-Sha256'' payloadHash' of
           Inl e \<Rightarrow> (log3, Inl e)
         | Inr headers3 \<Rightarrow>
        (case Headers_set headers3 ''Authorization'' authorization' of
           Inl e \<Rightarrow> (log3, Inl e)
         | Inr headers4 \<Rightarrow>
        (case Headers_set headers4 ''Content-Type'' contentType' of
           Inl e \<Rightarrow> (log3, Inl e)
         | Inr headers5 \<Rightarrow> (log3, Inr headers5))))))))))))"

subsection \<open>The signature as the specification describes it\<close>

text \<open>
  These definitions follow the words of the specification, not the code; the theorems
  below compare the code with them.  The lowercase hexadecimal form of octets: two digits
  for each octet, the high four bits first.
\<close>

definition spec_hex :: "bytes \<Rightarrow> jsstring" where
  "spec_hex octets =
     concat (map (\<lambda>x. [lit ''0123456789abcdef'' ! (unat x div 16),
                       lit ''0123456789abcdef'' ! (unat x mod 16)]) octets)"

text \<open>
  The canonical request of a request without a query string: the method, the canonical
  URI, an empty line for the query string, the three canonical headers, an empty line,
  the list of signed headers and the payload hash, each on a line of its own.
\<close>

definition spec_canonicalRequest ::
  "jsstring \<Rightarrow> jsstring \<Rightarrow> jsstring \<Rightarrow> jsstring \<Rightarrow> jsstring \<Rightarrow> jsstring" where
  "spec_canonicalRequest method'' uri' host' payloadHash' longDate =
     method'' @ [0x0A] @ uri' @ [0x0A] @ [0x0A]
       @ lit ''host:'' @ host' @ [0x0A]
       @ lit ''x-tos-content-sha256:'' @ payloadHash' @ [0x0A]
       @ lit ''x-tos-date:'' @ longDate @ [0x0A]
       @ [0x0A]
       @ lit ''host;x-tos-content-sha256;x-tos-date'' @ [0x0A]
       @ payloadHash'"

text \<open>
  The string to sign: the algorithm, the long date, the credential scope and the
  hexadecimal SHA-256 of the canonical request, each on a line of its own.
\<close>

definition spec_stringToSign ::
  "jsstring \<Rightarrow> jsstring \<Rightarrow> jsstring \<Rightarrow> jsstring \<Rightarrow> jsstring" where
  "spec_stringToSign longDate shortDate region' request =
     lit ''TOS4-HMAC-SHA256'' @ [0x0A] @ longDate @ [0x0A]
       @ shortDate @ lit ''/'' @ region' @ lit ''/tos/request'' @ [0x0A]
       @ spec_hex (SHA256 (TextEncoder_encode request))"

text \<open>
  The chain of four derived keys, each the HMAC-SHA256 of the next input under the
  previous key as raw octets, and the signature: the lowercase hexadecimal HMAC-SHA256
  of the string to sign under the last key.
\<close>

definition spec_signature :: "jsstring \<Rightarrow> jsstring \<Rightarrow> jsstring \<Rightarrow> jsstring \<Rightarrow> jsstring" where
  "spec_signature secret shortDate region' toSign =
     (let kDate = HMAC_SHA256 (TextEncoder_encode secret) (TextEncoder_encode shortDate);
          kRegion = HMAC_SHA256 kDate (TextEncoder_encode region');
          kService = HMAC_SHA256 kRegion (TextEncoder_encode (lit ''tos''));
          kSigning = HMAC_SHA256 kService (TextEncoder_encode (lit ''request''))
      in spec_hex (HMAC_SHA256 kSigning (TextEncoder_encode toSign)))"

text \<open>The signature of a request, from its fields, its canonical URI and its dates.\<close>

definition spec_requestSignature ::
  "jsstring \<Rightarrow> jsstring \<Rightarrow> jsstring \<Rightarrow> jsstring \<Rightarrow> jsstring \<Rightarrow> jsstring \<Rightarrow> FormattedDate
     \<Rightarrow> jsstring" where
  "spec_requestSignature secret method'' uri' host' payloadHash' region' dates =
     spec_signature secret (short dates) region'
       (spec_stringToSign (long dates) (short dates) region'
          (spec_canonicalRequest method'' uri' host' payloadHash' (long dates)))"

text \<open>The value of the \<^verbatim>\<open>Authorization\<close> header.\<close>

definition spec_authorization ::
  "jsstring \<Rightarrow> jsstring \<Rightarrow> jsstring \<Rightarrow> jsstring \<Rightarrow> jsstring" where
  "spec_authorization accessKeyId' shortDate region' signature =
     lit ''TOS4-HMAC-SHA256 Credential='' @ accessKeyId' @ lit ''/'' @ shortDate @ lit ''/''
       @ region'
       @ lit ''/tos/request, SignedHeaders=host;x-tos-content-sha256;x-tos-date, Signature=''
       @ signature"

subsection \<open>The requests whose headers are accepted\<close>

text \<open>
  The values \<^verbatim>\<open>headers.set\<close> accepts, and the requests for which the five values of
  \<^verbatim>\<open>signTOSRequest\<close> are accepted: the host, the payload hash and the content type are
  header values of their own, the access key identifier and the region are inside the
  \<^verbatim>\<open>Authorization\<close> value.
\<close>

definition Headers_accepts :: "jsstring \<Rightarrow> bool" where
  "Headers_accepts v \<longleftrightarrow> isByteString v \<and> isHeaderValue (headerValueNormalize v)"

definition headerValid :: "'a TOSSignOptions_scheme \<Rightarrow> bool" where
  "headerValid options \<longleftrightarrow>
     Headers_accepts (bucket options @ lit ''.'' @ endpoint options)
     \<and> Headers_accepts (payloadHash (contentSha256 options))
     \<and> isByteString (accessKeyId options) \<and> isHeaderValue (accessKeyId options)
     \<and> isByteString (region options) \<and> isHeaderValue (region options)
     \<and> Headers_accepts
         (case contentType options of None \<Rightarrow> lit ''application/octet-stream'' | Some c \<Rightarrow> c)"

section \<open>The client (client.ts)\<close>

text \<open>
  The data \<^verbatim>\<open>upload\<close> accepts: a \<^verbatim>\<open>Blob\<close> with its type, an \<^verbatim>\<open>ArrayBuffer\<close>, a
  \<^verbatim>\<open>Uint8Array\<close> (with whether its buffer is a \<^verbatim>\<open>SharedArrayBuffer\<close>), or a value of
  another type.
\<close>

datatype UploadData =
  Blob bytes jsstring | ArrayBuffer bytes | Uint8Array bytes bool | Unsupported

type_synonym fetch = "jsstring \<Rightarrow> RequestInit \<Rightarrow> error + Response"

definition objectUrl :: "jsstring \<Rightarrow> jsstring \<Rightarrow> jsstring \<Rightarrow> jsstring" where
  "objectUrl bucket' endpoint' key' =
     lit ''https://'' @ bucket' @ lit ''.'' @ endpoint' @ lit ''/'' @ key'"

text \<open>The object literals the four operations pass to \<^verbatim>\<open>signTOSRequest\<close>.\<close>

definition upload_signOptions ::
  "TOSClientOptions \<Rightarrow> jsstring \<Rightarrow> jsstring \<Rightarrow> jsstring \<Rightarrow> jsstring \<Rightarrow> ClientSignOptions" where
  "upload_signOptions this bucket' key' contentType' contentSha256' =
     \<lparr> method' = lit ''PUT'', bucket = bucket', key = key',
       region = TOSClientOptions.region this, endpoint = TOSClientOptions.endpoint this,
       accessKeyId = TOSClientOptions.accessKeyId this, secretAccessKey = None,
       contentType = Some contentType', contentSha256 = Some contentSha256', date = None,
       debug = TOSClientOptions.debug this,
       accessKeySecret = TOSClientOptions.accessKeySecret this \<rparr>"

definition download_signOptions ::
  "TOSClientOptions \<Rightarrow> jsstring \<Rightarrow> jsstring \<Rightarrow> ClientSignOptions" where
  "download_signOptions this bucket' key' =
     \<lparr> method' = lit ''GET'', bucket = bucket', key = key',
       region = TOSClientOptions.region this, endpoint = TOSClientOptions.endpoint this,
       accessKeyId = TOSClientOptions.accessKeyId this, secretAccessKey = None,
       contentType = None, contentSha256 = Some (lit ''UNSIGNED-PAYLOAD''), date = None,
       debug = TOSClientOptions.debug this,
       accessKeySecret = TOSClientOptions.accessKeySecret this \<rparr>"

definition delete_signOptions ::
  "TOSClientOptions \<Rightarrow> jsstring \<Rightarrow> jsstring \<Rightarrow> ClientSignOptions" where
  "delete_signOptions this bucket' key' =
     \<lparr> method' = lit ''DELETE'', bucket = bucket', key = key',
       region = TOSClientOptions.region this, endpoint = TOSClientOptions.endpoint this,
       accessKeyId = TOSClientOptions.accessKeyId this, secretAccessKey = None,
       contentType = None, contentSha256 = Some (lit ''UNSIGNED-PAYLOAD''), date = None,
       debug = TOSClientOptions.debug this,
       accessKeySecret = TOSClientOptions.accessKeySecret this \<rparr>"

definition exists_signOptions ::
  "TOSClientOptions \<Rightarrow> jsstring \<Rightarrow> jsstring \<Rightarrow> ClientSignOptions" where
  "exists_signOptions this bucket' key' =
     \<lparr> method' = lit ''HEAD'', bucket = bucket', key = key',
       region = TOSClientOptions.region this, endpoint = TOSClientOptions.endpoint this,
       accessKeyId = TOSClientOptions.accessKeyId this, secretAccessKey = None,
       contentType = None, contentSha256 = Some (lit ''UNSIGNED-PAYLOAD''), date = None,
       debug = TOSClientOptions.debug this,
       accessKeySecret = TOSClientOptions.accessKeySecret this \<rparr>"

text \<open>
  The object literal of \<^verbatim>\<open>TOSClient.list\<close> (a later revision of client.ts), whose
  comments say that the query parameters must be part of the signature.
\<close>

definition list_signOptions ::
  "TOSClientOptions \<Rightarrow> jsstring \<Rightarrow> (jsstring \<times> jsstring) list \<Rightarrow> jsstring \<Rightarrow> ListSignOptions" where
  "list_signOptions this bucket' customHeaders' queryString' =
     \<lparr> method' = lit ''GET'', bucket = bucket', key = [],
       region = TOSClientOptions.region this, endpoint = TOSClientOptions.endpoint this,
       accessKeyId = TOSClientOptions.accessKeyId this, secretAccessKey = None,
       contentType = None, contentSha256 = Some (lit ''UNSIGNED-PAYLOAD''), date = None,
       debug = TOSClientOptions.debug this,
       accessKeySecret = TOSClientOptions.accessKeySecret this,
       customHeaders = customHeaders', queryString = queryString' \<rparr>"

text \<open>
  The operations; \<open>fetch\<close> is the network, \<open>now\<close> the clock, \<open>this\<close> the options the
  client was constructed with.  Each result is the outcome of the promise.
\<close>

definition upload ::
  "fetch \<Rightarrow> Date \<Rightarrow> TOSClientOptions \<Rightarrow> jsstring \<Rightarrow> jsstring \<Rightarrow> UploadData \<Rightarrow> UploadOptions
     \<Rightarrow> error + unit" where
  "upload fetch' now this bucket' key' data options =
     (case
        (case data of
           Blob b type' \<Rightarrow>
             Inr (b, logicalOr (Some (logicalOr (UploadOptions.contentType options) type'))
                       (lit ''application/octet-stream''))
         | ArrayBuffer b \<Rightarrow>
             Inr (b, logicalOr (UploadOptions.contentType options)
                       (lit ''application/octet-stream''))
         | Uint8Array b shared \<Rightarrow>
             Inr (if shared then replicate (length b) 0 else b,
                  logicalOr (UploadOptions.contentType options)
                    (lit ''application/octet-stream''))
         | Unsupported \<Rightarrow>
             Inl (Error
               (lit ''Unsupported data type. Must be Blob, ArrayBuffer, or Uint8Array'')))
      of
        Inl e \<Rightarrow> Inl e
      | Inr (arrayBuffer, contentType') \<Rightarrow>
          (let hashArray = SHA256 arrayBuffer;
               contentSha256' =
                 join [] (map (\<lambda>b. padStart 2 (lit ''0'') (Number_toString 16 (uint b)))
                            hashArray)
           in case snd (signTOSRequest now
                          (upload_signOptions this bucket' key' contentType' contentSha256')) of
                Inl e \<Rightarrow> Inl e
              | Inr headers' \<Rightarrow>
                  (case fetch' (objectUrl bucket' (TOSClientOptions.endpoint this) key')
                          \<lparr> RequestInit.method' = lit ''PUT'', body = Some arrayBuffer,
                            headers = headers' \<rparr> of
                     Inl e \<Rightarrow> Inl e
                   | Inr response \<Rightarrow>
                       if \<not> ok response then
                         Inl (Error (lit ''Failed to upload to TOS: ''
                                @ String (Some (status response)) @ lit '' ''
                                @ responseText response))
                       else Inr ())))"

definition download ::
  "fetch \<Rightarrow> Date \<Rightarrow> TOSClientOptions \<Rightarrow> jsstring \<Rightarrow> jsstring \<Rightarrow> error + bytes" where
  "download fetch' now this bucket' key' =
     (case snd (signTOSRequest now (download_signOptions this bucket' key')) of
        Inl e \<Rightarrow> Inl e
      | Inr headers' \<Rightarrow>
          (case fetch' (objectUrl bucket' (TOSClientOptions.endpoint this) key')
                  \<lparr> RequestInit.method' = lit ''GET'', body = None, headers = headers' \<rparr> of
             Inl e \<Rightarrow> Inl e
           | Inr response \<Rightarrow>
               if \<not> ok response then
                 Inl (Error (lit ''Failed to download from TOS: ''
                        @ String (Some (status response)) @ lit '' ''
                        @ responseText response))
               else Inr (responseBlob response)))"

definition delete ::
  "fetch \<Rightarrow> Date \<Rightarrow> TOSClientOptions \<Rightarrow> jsstring \<Rightarrow> jsstring \<Rightarrow> error + unit" where
  "delete fetch' now this bucket' key' =
     (case snd (signTOSRequest now (delete_signOptions this bucket' key')) of
        Inl e \<Rightarrow> Inl e
      | Inr headers' \<Rightarrow>
          (case fetch' (objectUrl bucket' (TOSClientOptions.endpoint this) key')
                  \<lparr> RequestInit.method' = lit ''DELETE'', body = None, headers = headers' \<rparr> of
             Inl e \<Rightarrow> Inl e
           | Inr response \<Rightarrow>
               if \<not> ok response then
                 Inl (Error (lit ''Failed to delete from TOS: ''
                        @ String (Some (status response)) @ lit '' ''
                        @ responseText response))
               else Inr ()))"

text \<open>\<^verbatim>\<open>exists\<close> catches every exception and answers \<^verbatim>\<open>false\<close>.\<close>

definition exists :: "fetch \<Rightarrow> Date \<Rightarrow> TOSClientOptions \<Rightarrow> jsstring \<Rightarrow> jsstring \<Rightarrow> bool" where
  "exists fetch' now this bucket' key' =
     (case snd (signTOSRequest now (exists_signOptions this bucket' key')) of
        Inl e \<Rightarrow> False
      | Inr headers' \<Rightarrow>
          (case fetch' (objectUrl bucket' (TOSClientOptions.endpoint this) key')
                  \<lparr> RequestInit.method' = lit ''HEAD'', body = None, headers = headers' \<rparr> of
             Inl e \<Rightarrow> False
           | Inr response \<Rightarrow> ok response))"

section \<open>Example inputs\<close>

text \<open>
  The request of the signer's tests (bucket \<^verbatim>\<open>test-bucket\<close>, endpoint
  \<^verbatim>\<open>tos-cn-beijing.volces.com\<close>, a fixed date 2025-01-01T00:00:00Z), with the secret
  under the property the signer reads, and the key with a space, parentheses and
  non-ASCII characters, \<^verbatim>\<open>path/to/\<close> U+6587 U+4EF6 \<^verbatim>\<open> (1).txt\<close>.
\<close>

definition exampleOptions :: TOSSignOptions where
  "exampleOptions =
     \<lparr> method' = lit ''PUT'', bucket = lit ''test-bucket'', key = lit ''test-file.txt'',
       region = lit ''cn-beijing'', endpoint = lit ''tos-cn-beijing.volces.com'',
       accessKeyId = lit ''test-access-key'',
       secretAccessKey = Some (lit ''test-secret-key''),
       contentType = Some (lit ''text/plain''), contentSha256 = Some (lit ''test-sha256''),
       date = Some (TimeValue 1735689600000), debug = None \<rparr>"

definition specialKey :: jsstring where
  "specialKey = lit ''path/to/'' @ [0x6587, 0x4EF6] @ lit '' (1).txt''"

definition exampleClient :: TOSClientOptions where
  "exampleClient =
     \<lparr> TOSClientOptions.region = lit ''cn-beijing'',
       TOSClientOptions.endpoint = lit ''tos-cn-beijing.volces.com'',
       TOSClientOptions.accessKeyId = lit ''test-access-key'',
       TOSClientOptions.accessKeySecret = lit ''test-secret-key'',
       TOSClientOptions.debug = Some True \<rparr>"

section \<open>Properties of the key encoding\<close>

lemma nat_lt16_cases: "(d::nat) < 16 \<Longrightarrow> d \<in> {0,1,2,3,4,5,6,7,8,9,10,11,12,13,14,15}"
  by simp arith

lemma digits_less: "n < b \<Longrightarrow> digits b n = [n]"
  by (subst digits.simps) simp

lemma digits_step: "2 \<le> b \<Longrightarrow> b \<le> n \<Longrightarrow> digits b n = digits b (n div b) @ [n mod b]"
  by (subst digits.simps) simp

lemma digits16_byte: "b < 256 \<Longrightarrow> digits 16 b = (if b < 16 then [b] else [b div 16, b mod 16])"
  by (simp add: digits_less digits_step div_less_iff_less_mult)

lemma percentOctet_byte:
  "b < 256 \<Longrightarrow> percentOctet b = [0x25, digitCharUpper (b div 16), digitCharUpper (b mod 16)]"
  by (simp add: percentOctet_def digits16_byte padStart_def lit_def digitCharUpper_def)

lemma digitCharUpper_not_special:
  assumes "d < 16"
  shows "digitCharUpper d \<notin> {0x25, 0x21, 0x27, 0x28, 0x29, 0x2A}"
  using nat_lt16_cases [OF assms] by (auto simp: digitCharUpper_def)

lemma digitCharUpper_2: "d < 16 \<Longrightarrow> digitCharUpper d = 0x32 \<longleftrightarrow> d = 2"
  using nat_lt16_cases [of d] by (auto simp: digitCharUpper_def)

lemma digitCharUpper_F: "d < 16 \<Longrightarrow> digitCharUpper d = 0x46 \<longleftrightarrow> d = 15"
  using nat_lt16_cases [of d] by (auto simp: digitCharUpper_def)

lemma replaceChar_Nil [simp]: "replaceChar c r [] = []"
  by (simp add: replaceChar_def)

lemma replaceChar_Cons:
  "replaceChar c r (x # xs) = (if x = c then r else [x]) @ replaceChar c r xs"
  by (simp add: replaceChar_def)

lemma replaceChar_append: "replaceChar c r (xs @ ys) = replaceChar c r xs @ replaceChar c r ys"
  by (simp add: replaceChar_def)

lemma replaceChar_absent: "c \<notin> set xs \<Longrightarrow> replaceChar c r xs = xs"
  by (induction xs) (auto simp: replaceChar_Cons)

lemma escapeMarks_Nil [simp]: "escapeMarks [] = []"
  by (simp add: escapeMarks_def)

lemma escapeMarks_append: "escapeMarks (xs @ ys) = escapeMarks xs @ escapeMarks ys"
  by (simp add: escapeMarks_def replaceChar_append)

lemma escapeMarks_absent:
  "set xs \<inter> {0x21, 0x27, 0x28, 0x29, 0x2A} = {} \<Longrightarrow> escapeMarks xs = xs"
  by (simp add: escapeMarks_def replaceChar_absent)

lemma escapeMarks_Cons_other:
  "c \<notin> {0x21, 0x27, 0x28, 0x29, 0x2A} \<Longrightarrow> escapeMarks (c # xs) = c # escapeMarks xs"
  using escapeMarks_append [of "[c]" xs] escapeMarks_absent [of "[c]"] by simp

lemma escapeMarks_mark:
  "c \<in> {0x21, 0x27, 0x28, 0x29, 0x2A} \<Longrightarrow> escapeMarks [c] = percentOctet (unat c)"
  by (auto simp: escapeMarks_def replaceChar_Cons lit_def percentOctet_byte digitCharUpper_def)

lemma escapeMarks_percentOctet:
  assumes "b < 256"
  shows "escapeMarks (percentOctet b @ xs) = percentOctet b @ escapeMarks xs"
proof -
  have "b div 16 < 16" "b mod 16 < 16"
    using assms by (simp_all add: div_less_iff_less_mult)
  then have "set (percentOctet b) \<inter> {0x21, 0x27, 0x28, 0x29, 0x2A} = {}"
    using digitCharUpper_not_special [of "b div 16"] digitCharUpper_not_special [of "b mod 16"]
    by (simp add: percentOctet_byte assms)
  then show ?thesis
    by (simp add: escapeMarks_append escapeMarks_absent)
qed

lemma replace2F_Cons_other:
  assumes "a \<noteq> 0x25"
  shows "replace2F (a # s) = a # replace2F s"
proof (cases s)
  case Nil
  then show ?thesis by simp
next
  case (Cons b s')
  with assms show ?thesis by (cases s') (simp_all add: lit_def)
qed

lemma replace2F_percentOctet:
  assumes "b < 256"
  shows "replace2F (percentOctet b @ s) = (if b = 0x2F then lit ''/'' else percentOctet b) @ replace2F s"
proof -
  have d: "b div 16 < 16" "b mod 16 < 16"
    using assms by (simp_all add: div_less_iff_less_mult)
  have ne: "digitCharUpper (b div 16) \<noteq> 0x25" "digitCharUpper (b mod 16) \<noteq> 0x25"
    using digitCharUpper_not_special [OF d(1)] digitCharUpper_not_special [OF d(2)] by simp_all
  have eq: "(digitCharUpper (b div 16) = 0x32 \<and> digitCharUpper (b mod 16) = 0x46) \<longleftrightarrow> b = 0x2F"
    using d by (simp add: digitCharUpper_2 digitCharUpper_F) presburger
  show ?thesis
  proof (cases "b = 0x2F")
    case True
    then show ?thesis
      by (simp add: percentOctet_byte lit_def digitCharUpper_def)
  next
    case False
    with eq have "[0x25, digitCharUpper (b div 16), digitCharUpper (b mod 16)] \<noteq> lit ''%2F''"
      by (simp add: lit_def)
    with False ne show ?thesis
      by (simp add: percentOctet_byte assms replace2F_Cons_other)
  qed
qed

lemma utf8_octets:
  assumes "cp < 0x110000"
  shows "\<forall>b \<in> set (utf8 cp). b < 256 \<and> (0x80 \<le> cp \<longrightarrow> 0x80 \<le> b)"
  using assms by (auto simp: utf8_def div_less_iff_less_mult)

lemma utf8_ascii: "cp < 0x80 \<Longrightarrow> utf8 cp = [cp]"
  by (simp add: utf8_def)

lemma escapeMarks_octets:
  "\<forall>b \<in> set bs. b < 256 \<Longrightarrow>
   escapeMarks (concat (map percentOctet bs) @ xs) = concat (map percentOctet bs) @ escapeMarks xs"
  by (induction bs) (simp_all add: escapeMarks_percentOctet)

lemma replace2F_octets:
  "\<forall>b \<in> set bs. b < 256 \<and> b \<noteq> 0x2F \<Longrightarrow>
   replace2F (concat (map percentOctet bs) @ s) = concat (map percentOctet bs) @ replace2F s"
  by (induction bs) (simp_all add: replace2F_percentOctet)

lemma escapeMarks_percentEncode:
  "cp < 0x110000 \<Longrightarrow> escapeMarks (percentEncode cp @ xs) = percentEncode cp @ escapeMarks xs"
  unfolding percentEncode_def using utf8_octets [of cp] by (intro escapeMarks_octets) blast

lemma replace2F_percentEncode:
  assumes "cp < 0x110000"
  shows "replace2F (percentEncode cp @ s) = (if cp = 0x2F then lit ''/'' else percentEncode cp) @ replace2F s"
proof (cases "cp < 0x80")
  case True
  then show ?thesis
    using replace2F_percentOctet [of cp s] by (simp add: percentEncode_def utf8_ascii)
next
  case False
  then have "\<forall>b \<in> set (utf8 cp). b < 256 \<and> b \<noteq> 0x2F"
    using utf8_octets [OF assms] by fastforce
  then have "replace2F (percentEncode cp @ s) = percentEncode cp @ replace2F s"
    unfolding percentEncode_def by (rule replace2F_octets)
  with False show ?thesis by simp
qed

lemma unat_code_unit: "unat (c :: 16 word) < 0x110000"
  using unsigned_less [of c, where ?'a = nat] by simp

lemma pairCodePoint_range:
  assumes "isHighSurrogate c" "isLowSurrogate d"
  shows "0x10000 \<le> pairCodePoint c d \<and> pairCodePoint c d < 0x110000"
proof -
  have "unat c \<le> 0xDBFF" "unat d \<le> 0xDFFF"
    using assms by (simp_all add: isHighSurrogate_def isLowSurrogate_def word_le_nat_alt)
  then show ?thesis
    by (simp add: pairCodePoint_def)
qed

text \<open>The two passes after \<^verbatim>\<open>encodeURIComponent\<close>, applied to its output piece by piece.\<close>

lemma finish_literal:
  assumes "keyLiteral c" "c \<noteq> 0x2F"
  shows "replace2F (escapeMarks (c # r)) = c # replace2F (escapeMarks r)"
proof -
  from assms have "c \<notin> {0x21, 0x27, 0x28, 0x29, 0x2A}" "c \<noteq> 0x25"
    by (auto simp: keyLiteral_def lit_def)
  then show ?thesis
    by (simp add: escapeMarks_Cons_other replace2F_Cons_other)
qed

lemma finish_mark:
  assumes "c \<in> {0x21, 0x27, 0x28, 0x29, 0x2A}"
  shows "replace2F (escapeMarks (c # r)) = percentEncode (unat c) @ replace2F (escapeMarks r)"
proof -
  have u: "unat c < 0x80" "unat c \<noteq> 0x2F"
    using assms by auto
  have "escapeMarks (c # r) = percentOctet (unat c) @ escapeMarks r"
    using escapeMarks_append [of "[c]" r] escapeMarks_mark [OF assms] by simp
  then show ?thesis
    using u replace2F_percentOctet [of "unat c" "escapeMarks r"]
    by (simp add: percentEncode_def utf8_ascii)
qed

lemma finish_encoded:
  assumes "cp < 0x110000"
  shows "replace2F (escapeMarks (percentEncode cp @ r)) =
         (if cp = 0x2F then lit ''/'' else percentEncode cp) @ replace2F (escapeMarks r)"
  by (simp only: escapeMarks_percentEncode [OF assms] replace2F_percentEncode [OF assms])

lemma uriEncode_passes:
  "uriEncode str False =
     (case encodeURIComponent str of
        Inl e \<Rightarrow> Inl e
      | Inr r \<Rightarrow> Inr (replace2F (escapeMarks r)))"
  by (simp add: uriEncode_def escapeMarks_def Let_def split: sum.split)

lemma uriEncode_encodeKey: "uriEncode s False = encodeKey s"
proof (induction s rule: length_induct)
  case (1 s)
  show ?case
  proof (cases s)
    case Nil
    then show ?thesis by (simp add: uriEncode_passes)
  next
    case (Cons c cs)
    have IH: "(case encodeURIComponent cs of Inl e \<Rightarrow> Inl e
               | Inr r \<Rightarrow> Inr (replace2F (escapeMarks r))) = encodeKey cs"
      using 1 Cons by (simp add: uriEncode_passes [symmetric])
    consider (literal) "keyLiteral c" "c \<noteq> 0x2F"
      | (slash) "c = 0x2F"
      | (mark) "c \<in> {0x21, 0x27, 0x28, 0x29, 0x2A}"
      | (other) "\<not> keyLiteral c" "\<not> uriUnreserved c"
      by (auto simp: keyLiteral_def uriUnreserved_def lit_def)
    then show ?thesis
    proof cases
      case literal
      then have "uriUnreserved c"
        by (auto simp: keyLiteral_def uriUnreserved_def lit_def)
      with literal show ?thesis
        unfolding Cons uriEncode_passes using IH [symmetric]
        by (simp add: finish_literal split: sum.splits)
    next
      case slash
      then have c: "keyLiteral c" "\<not> uriUnreserved c" "\<not> isLowSurrogate c" "\<not> isHighSurrogate c"
        "unat c = 0x2F"
        by (simp_all add: keyLiteral_def uriUnreserved_def lit_def isLowSurrogate_def
            isHighSurrogate_def)
      have "replace2F (escapeMarks (percentEncode 0x2F @ r)) = c # replace2F (escapeMarks r)" for r
        using finish_encoded [of "0x2F" r] slash by (simp add: lit_def)
      with c show ?thesis
        unfolding Cons uriEncode_passes using IH [symmetric]
        by (simp split: sum.splits)
    next
      case mark
      then have c: "\<not> keyLiteral c" "uriUnreserved c" "\<not> isLowSurrogate c" "\<not> isHighSurrogate c"
        by (auto simp: keyLiteral_def uriUnreserved_def lit_def isLowSurrogate_def
            isHighSurrogate_def)
      from c show ?thesis
        unfolding Cons uriEncode_passes using IH [symmetric] finish_mark [OF mark]
        by (simp split: sum.splits)
    next
      case other
      show ?thesis
      proof (cases "isLowSurrogate c")
        case True
        with other show ?thesis
          unfolding Cons uriEncode_passes by simp
      next
        case low: False
        show ?thesis
        proof (cases "isHighSurrogate c")
          case False
          have "c \<noteq> 0x2F"
            using other by (auto simp: keyLiteral_def lit_def)
          then have "unat c \<noteq> 0x2F"
            by (auto simp: word_unat_eq_iff)
          then have "replace2F (escapeMarks (percentEncode (unat c) @ r)) =
              percentEncode (unat c) @ replace2F (escapeMarks r)" for r
            using finish_encoded [OF unat_code_unit, of c r] by simp
          with other low False show ?thesis
            unfolding Cons uriEncode_passes using IH [symmetric]
            by (simp split: sum.splits)
        next
          case True
          show ?thesis
          proof (cases cs)
            case Nil
            with other low True show ?thesis
              unfolding Cons uriEncode_passes by simp
          next
            case cs: (Cons d ds)
            show ?thesis
            proof (cases "isLowSurrogate d")
              case False
              with other low True cs show ?thesis
                unfolding Cons uriEncode_passes by simp
            next
              case d: True
              have IH': "(case encodeURIComponent ds of Inl e \<Rightarrow> Inl e
                   | Inr r \<Rightarrow> Inr (replace2F (escapeMarks r))) = encodeKey ds"
                using 1 Cons cs by (simp add: uriEncode_passes [symmetric])
              have rng: "0x10000 \<le> pairCodePoint c d" "pairCodePoint c d < 0x110000"
                using pairCodePoint_range [OF True d] by simp_all
              then have "replace2F (escapeMarks (percentEncode (pairCodePoint c d) @ r)) =
                  percentEncode (pairCodePoint c d) @ replace2F (escapeMarks r)" for r
                using finish_encoded [of "pairCodePoint c d" r] by simp
              with other low True cs d show ?thesis
                unfolding Cons uriEncode_passes using IH' [symmetric]
                by (simp split: sum.splits)
            qed
          qed
        qed
      qed
    qed
  qed
qed

lemma unreserved_not_surrogate:
  "uriUnreserved c \<Longrightarrow> \<not> isLowSurrogate c \<and> \<not> isHighSurrogate c"
  by (auto simp: uriUnreserved_def lit_def isLowSurrogate_def isHighSurrogate_def
      word_le_nat_alt)

lemma encodeURIComponent_wellFormed:
  "(\<exists>r. encodeURIComponent s = Inr r) \<longleftrightarrow> isWellFormed s"
proof (induction s rule: isWellFormed.induct)
  case 1
  show ?case by simp
next
  case (2 c cs)
  show ?case
  proof (cases "isLowSurrogate c")
    case True
    then show ?thesis
      using unreserved_not_surrogate [of c] by auto
  next
    case low: False
    show ?thesis
    proof (cases "isHighSurrogate c")
      case True
      then have un: "\<not> uriUnreserved c"
        using unreserved_not_surrogate [of c] by auto
      show ?thesis
      proof (cases cs)
        case Nil
        with low True un show ?thesis by simp
      next
        case (Cons d ds)
        have "(\<exists>r. encodeURIComponent ds = Inr r) \<longleftrightarrow> isWellFormed ds"
          using "2.IH"(1) [OF low True Cons] .
        with low True un show ?thesis
          unfolding Cons by (auto split: sum.splits)
      qed
    next
      case False
      have "(\<exists>r. encodeURIComponent cs = Inr r) \<longleftrightarrow> isWellFormed cs"
        using "2.IH"(2) [OF low False] .
      with low False show ?thesis
        by (auto split: sum.splits)
    qed
  qed
qed

lemma uri_wellFormed: "(\<exists>u. uri s = Inr u) \<longleftrightarrow> isWellFormed s"
  using encodeURIComponent_wellFormed [of s]
  by (auto simp: uri_def uriEncode_passes split: sum.splits)

section \<open>Properties of the primitives\<close>

lemma length_be32_bytes [simp]: "length (be32_bytes w) = 4"
  by (simp add: be32_bytes_def)

lemma length_sha256_output: "length (sha256_output H) = 32"
  by (induction H rule: sha256_output.induct) simp

lemma length_SHA256 [simp]: "length (SHA256 m) = 32"
  by (simp add: SHA256_def length_sha256_output)

lemma length_HMAC_SHA256 [simp]: "length (HMAC_SHA256 k m) = 32"
  by (simp add: HMAC_SHA256_def Let_def)

lemma HMAC_SHA256_nonempty [simp]: "HMAC_SHA256 k m \<noteq> []"
  using length_HMAC_SHA256 [of k m] by (metis length_0_conv zero_neq_numeral)

lemma utf8_nonempty: "utf8 cp \<noteq> []"
  by (simp add: utf8_def)

lemma codePoints_nonempty: "s \<noteq> [] \<Longrightarrow> codePoints s \<noteq> []"
  by (induction s rule: codePoints.induct) simp_all

lemma TextEncoder_encode_nonempty: "s \<noteq> [] \<Longrightarrow> TextEncoder_encode s \<noteq> []"
  using codePoints_nonempty [of s] utf8_nonempty
  by (cases "codePoints s") (simp_all add: TextEncoder_encode_def)

lemma hmacSha256_string:
  "s \<noteq> [] \<Longrightarrow>
   hmacSha256 (KeyString s) data = Inr (HMAC_SHA256 (TextEncoder_encode s) (TextEncoder_encode data))"
  by (simp add: hmacSha256_def importKey_def TextEncoder_encode_nonempty)

lemma hmacSha256_buffer:
  "k \<noteq> [] \<Longrightarrow> hmacSha256 (KeyBuffer k) data = Inr (HMAC_SHA256 k (TextEncoder_encode data))"
  by (simp add: hmacSha256_def importKey_def)

lemma hmacSha256_empty_string: "hmacSha256 (KeyString []) data = Inl DataError"
  by (simp add: hmacSha256_def importKey_def TextEncoder_encode_def)

lemma hmacSha256_undefined: "hmacSha256 KeyUndefined data = Inl TypeError"
  by (simp add: hmacSha256_def importKey_def)

section \<open>Hexadecimal digits\<close>

lemma join_empty_separator: "join [] xs = concat xs"
  by (induction "[] :: jsstring" xs rule: join.induct) simp_all

lemma hex_byte:
  "padStart 2 (lit ''0'') (Number_toString 16 (uint (b :: 8 word))) =
     [digitChar (unat b div 16), digitChar (unat b mod 16)]"
proof -
  have "unat b < 256"
    using unsigned_less [of b, where ?'a = nat] by simp
  then show ?thesis
    by (simp add: Number_toString_def digits16_byte padStart_def lit_def digitChar_def
        div_less_iff_less_mult)
qed

lemma digitChar_hex: "d < 16 \<Longrightarrow> digitChar d = lit ''0123456789abcdef'' ! d"
  using nat_lt16_cases [of d] by (auto simp: digitChar_def lit_def)

lemma bufferToHex_spec_hex: "bufferToHex buffer = spec_hex buffer"
proof -
  have "[digitChar (unat b div 16), digitChar (unat b mod 16)] =
      [lit ''0123456789abcdef'' ! (unat b div 16), lit ''0123456789abcdef'' ! (unat b mod 16)]"
    for b :: "8 word"
  proof -
    have "unat b < 256"
      using unsigned_less [of b, where ?'a = nat] by simp
    then have "unat b div 16 < 16" "unat b mod 16 < 16"
      by (simp_all add: div_less_iff_less_mult)
    then show ?thesis
      by (simp only: digitChar_hex)
  qed
  then show ?thesis
    by (simp only: bufferToHex_def join_empty_separator hex_byte spec_hex_def)
qed

lemma length_spec_hex: "length (spec_hex octets) = 2 * length octets"
  by (induction octets) (simp_all add: spec_hex_def)

lemma spec_hex_lower_hex: "set (spec_hex octets) \<subseteq> set (lit ''0123456789abcdef'')"
proof -
  have "lit ''0123456789abcdef'' ! (unat b div 16) \<in> set (lit ''0123456789abcdef'')
      \<and> lit ''0123456789abcdef'' ! (unat b mod 16) \<in> set (lit ''0123456789abcdef'')"
    for b :: "8 word"
  proof -
    have "unat b < 256"
      using unsigned_less [of b, where ?'a = nat] by simp
    then have "unat b div 16 < length (lit ''0123456789abcdef'')"
      "unat b mod 16 < length (lit ''0123456789abcdef'')"
      by (simp_all add: div_less_iff_less_mult lit_def)
    then show ?thesis
      by (simp only: nth_mem)
  qed
  then show ?thesis
    unfolding spec_hex_def by (induction octets) auto
qed

lemma spec_signature_hex:
  "length (spec_signature secret d r t) = 64
   \<and> set (spec_signature secret d r t) \<subseteq> set (lit ''0123456789abcdef'')"
  by (simp add: spec_signature_def Let_def length_spec_hex spec_hex_lower_hex)

section \<open>Header values\<close>

lemma headerValueNormalize_id:
  assumes "v \<noteq> []" and "\<not> isHTTPWhitespace (hd v)" and "\<not> isHTTPWhitespace (last v)"
  shows "headerValueNormalize v = v"
proof -
  from assms(1,2) have a: "dropWhile isHTTPWhitespace v = v"
    by (cases v) simp_all
  from assms(1,3) have "dropWhile isHTTPWhitespace (rev v) = rev v"
    by (cases "rev v") (simp_all add: hd_rev [symmetric])
  with a show ?thesis
    by (simp add: headerValueNormalize_def)
qed

lemma set_headerValueNormalize: "set (headerValueNormalize v) \<subseteq> set v"
  by (auto simp: headerValueNormalize_def dest!: set_dropWhileD)

lemma isHeaderValue_normalize: "isHeaderValue v \<Longrightarrow> isHeaderValue (headerValueNormalize v)"
  using set_headerValueNormalize [of v] by (auto simp: isHeaderValue_def list_all_iff)

lemma isByteString_append [simp]: "isByteString (a @ b) \<longleftrightarrow> isByteString a \<and> isByteString b"
  by (simp add: isByteString_def)

lemma isHeaderValue_append [simp]: "isHeaderValue (a @ b) \<longleftrightarrow> isHeaderValue a \<and> isHeaderValue b"
  by (simp add: isHeaderValue_def)

text \<open>Strings of visible ASCII characters are stored as they are.\<close>

lemma visible_accepted:
  assumes "\<forall>c\<in>set v. 0x21 \<le> c \<and> c \<le> 0x7E"
  shows "isByteString v" and "isHeaderValue v" and "headerValueNormalize v = v"
proof -
  have "(0x7E :: 16 word) \<le> 0xFF"
    by simp
  then show "isByteString v"
    using assms by (auto simp: isByteString_def list_all_iff intro: order_trans)
  show "isHeaderValue v"
    using assms by (auto simp: isHeaderValue_def list_all_iff)
  show "headerValueNormalize v = v"
  proof (cases "v = []")
    case True
    then show ?thesis by (simp add: headerValueNormalize_def)
  next
    case False
    then have "hd v \<in> set v" "last v \<in> set v"
      by simp_all
    with assms have "\<not> isHTTPWhitespace (hd v)" "\<not> isHTTPWhitespace (last v)"
      by (auto simp: isHTTPWhitespace_def)
    with False show ?thesis
      by (rule headerValueNormalize_id)
  qed
qed

lemma digits_less_radix: "2 \<le> b \<Longrightarrow> d \<in> set (digits b n) \<Longrightarrow> d < b"
proof (induction b n arbitrary: d rule: digits.induct)
  case (1 b n)
  show ?case
  proof (cases "n < b")
    case True
    with 1(3) show ?thesis
      by (simp add: digits.simps [of b n])
  next
    case False
    with 1(2,3) have "d \<in> set (digits b (n div b)) \<or> d = n mod b"
      by (auto simp: digits.simps [of b n])
    then show ?thesis
    proof
      assume "d \<in> set (digits b (n div b))"
      with 1(1) [of d] False 1(2) show ?thesis by simp
    next
      assume "d = n mod b"
      with 1(2) show ?thesis by simp
    qed
  qed
qed

lemma digitChar_decimal: "d < 10 \<Longrightarrow> digitChar d \<in> set (lit ''0123456789'')"
  using nat_lt16_cases [of d] by (auto simp: digitChar_def lit_def)

lemma String_chars: "set (String x) \<subseteq> set (lit ''0123456789-Na'')"
proof -
  have "digitChar d \<in> set (lit ''0123456789-Na'')" if "d \<in> set (digits 10 n)" for d n
    using digits_less_radix [of 10 d n] that digitChar_decimal [of d] by (auto simp: lit_def)
  then show ?thesis
    by (cases x) (auto simp: String_def Number_toString_def lit_def)
qed

lemma padStart_chars: "set (padStart n p s) \<subseteq> set p \<union> set s"
proof -
  have "set (take k (concat (replicate k p))) \<subseteq> set p" for k
    using set_take_subset [of k "concat (replicate k p)"] by auto
  then show ?thesis
    by (auto simp: padStart_def)
qed

lemma formatDate_chars:
  "set (short (formatDate d)) \<subseteq> set (lit ''0123456789-NaTZ'')"
  "set (long (formatDate d)) \<subseteq> set (lit ''0123456789-NaTZ'')"
proof -
  have s: "set (String x) \<subseteq> set (lit ''0123456789-NaTZ'')" for x
    using String_chars [of x] by (auto simp: lit_def)
  have p: "set (padStart 2 (lit ''0'') (String x)) \<subseteq> set (lit ''0123456789-NaTZ'')" for x
    using padStart_chars [of 2 "lit ''0''" "String x"] s [of x] by (auto simp: lit_def)
  have t: "set (lit ''T'') \<subseteq> set (lit ''0123456789-NaTZ'')"
    "set (lit ''Z'') \<subseteq> set (lit ''0123456789-NaTZ'')"
    by (simp_all add: lit_def)
  show "set (short (formatDate d)) \<subseteq> set (lit ''0123456789-NaTZ'')"
    using s p by (simp add: formatDate_def Let_def)
  show "set (long (formatDate d)) \<subseteq> set (lit ''0123456789-NaTZ'')"
    using s p t by (simp add: formatDate_def Let_def)
qed

lemma date_visible:
  "c \<in> set (lit ''0123456789-NaTZ'') \<Longrightarrow> 0x21 \<le> c \<and> c \<le> (0x7E :: 16 word)"
  by (auto simp: lit_def)

lemma long_accepted:
  "isByteString (long (formatDate d))" "isHeaderValue (long (formatDate d))"
  "headerValueNormalize (long (formatDate d)) = long (formatDate d)"
  using formatDate_chars(2) [of d] date_visible
  by (auto intro!: visible_accepted)

lemma short_accepted:
  "isByteString (short (formatDate d))" "isHeaderValue (short (formatDate d))"
  using formatDate_chars(1) [of d] date_visible
  by (auto intro!: visible_accepted)

lemma hex_visible:
  "c \<in> set (lit ''0123456789abcdef'') \<Longrightarrow> 0x21 \<le> c \<and> c \<le> (0x7E :: 16 word)"
  by (auto simp: lit_def)

lemma authorization_accepted:
  assumes "isByteString d" and "isHeaderValue d"
    and "set sig \<subseteq> set (lit ''0123456789abcdef'')" and "sig \<noteq> []"
  shows "Headers_accepts (spec_authorization a d r sig) \<longleftrightarrow>
      isByteString a \<and> isHeaderValue a \<and> isByteString r \<and> isHeaderValue r"
    and "headerValueNormalize (spec_authorization a d r sig) = spec_authorization a d r sig"
proof -
  have sig: "isByteString sig" "isHeaderValue sig"
    using assms(3) hex_visible by (auto intro!: visible_accepted)
  have "last sig \<in> set sig"
    using assms(4) by simp
  with assms(3) have "\<not> isHTTPWhitespace (last sig)"
    using hex_visible [of "last sig"] by (auto simp: isHTTPWhitespace_def)
  then have l: "\<not> isHTTPWhitespace (last (spec_authorization a d r sig))"
    using assms(4) by (simp add: spec_authorization_def)
  have h: "\<not> isHTTPWhitespace (hd (spec_authorization a d r sig))"
    by (simp add: spec_authorization_def lit_def isHTTPWhitespace_def)
  have n: "spec_authorization a d r sig \<noteq> []"
    by (simp add: spec_authorization_def lit_def)
  from n h l show id: "headerValueNormalize (spec_authorization a d r sig) =
      spec_authorization a d r sig"
    by (rule headerValueNormalize_id)
  have lits: "isByteString (lit ''TOS4-HMAC-SHA256 Credential='')"
    "isHeaderValue (lit ''TOS4-HMAC-SHA256 Credential='')"
    "isByteString (lit ''/'')" "isHeaderValue (lit ''/'')"
    "isByteString
       (lit ''/tos/request, SignedHeaders=host;x-tos-content-sha256;x-tos-date, Signature='')"
    "isHeaderValue
       (lit ''/tos/request, SignedHeaders=host;x-tos-content-sha256;x-tos-date, Signature='')"
    by (simp_all add: lit_def isByteString_def isHeaderValue_def)
  show "Headers_accepts (spec_authorization a d r sig) \<longleftrightarrow>
      isByteString a \<and> isHeaderValue a \<and> isByteString r \<and> isHeaderValue r"
    unfolding Headers_accepts_def id
    using assms(1,2) sig lits by (auto simp: spec_authorization_def)
qed

lemma canonicalRequest_spec:
  "canonicalRequest m u (canonicalHeaders h p l) p = spec_canonicalRequest m u h p l"
  by (simp add: canonicalRequest_def canonicalHeaders_def spec_canonicalRequest_def
      newline_def signedHeaders_def)

lemma stringToSign_spec:
  "stringToSign l (credentialScope d r) (spec_hex (SHA256 (TextEncoder_encode request))) =
     spec_stringToSign l d r request"
  by (simp add: stringToSign_def credentialScope_def spec_stringToSign_def newline_def)

lemma authorization_spec:
  "authorization a (credentialScope d r) sig = spec_authorization a d r sig"
  by (simp add: authorization_def credentialScope_def signedHeaders_def spec_authorization_def
      lit_def)

lemmas header_names = sameName_def asciiLower_def isHeaderName_def isTokenChar_def

lemma Headers_set_chain:
  "(case Headers_set [] ''Host'' a of
      Inl x \<Rightarrow> (l, Inl x)
    | Inr h1 \<Rightarrow>
        (case Headers_set h1 ''X-Tos-Date'' b of
           Inl x \<Rightarrow> (l, Inl x)
         | Inr h2 \<Rightarrow>
             (case Headers_set h2 ''X-Tos-Content-Sha256'' c of
                Inl x \<Rightarrow> (l, Inl x)
              | Inr h3 \<Rightarrow>
                  (case Headers_set h3 ''Authorization'' d of
                     Inl x \<Rightarrow> (l, Inl x)
                   | Inr h4 \<Rightarrow>
                       (case Headers_set h4 ''Content-Type'' e of
                          Inl x \<Rightarrow> (l, Inl x)
                        | Inr h5 \<Rightarrow> (l, Inr h5)))))) =
   (l, if Headers_accepts a \<and> Headers_accepts b \<and> Headers_accepts c \<and> Headers_accepts d
          \<and> Headers_accepts e
       then Inr [(''Host'', headerValueNormalize a), (''X-Tos-Date'', headerValueNormalize b),
                 (''X-Tos-Content-Sha256'', headerValueNormalize c),
                 (''Authorization'', headerValueNormalize d),
                 (''Content-Type'', headerValueNormalize e)]
       else Inl TypeError)"
  by (simp add: Headers_set_def Headers_accepts_def header_names Let_def)

section \<open>What \<^verbatim>\<open>signTOSRequest\<close> returns\<close>

lemma signTOSRequest_uri_error:
  "uri (key options) = Inl e \<Longrightarrow> signTOSRequest now options = ([], Inl e)"
  by (simp add: signTOSRequest_def Let_def)

lemma signTOSRequest_undefined_secret:
  "uri (key options) = Inr u \<Longrightarrow> secretAccessKey options = None \<Longrightarrow>
   snd (signTOSRequest now options) = Inl TypeError"
  by (simp add: signTOSRequest_def Let_def hmacSha256_undefined)

lemma signTOSRequest_empty_secret:
  "uri (key options) = Inr u \<Longrightarrow> secretAccessKey options = Some [] \<Longrightarrow>
   snd (signTOSRequest now options) = Inl DataError"
  by (simp add: signTOSRequest_def Let_def hmacSha256_empty_string)

lemma spec_requestSignature_hex:
  "length (spec_requestSignature s m u h p r dates) = 64"
  "set (spec_requestSignature s m u h p r dates) \<subseteq> set (lit ''0123456789abcdef'')"
  "spec_requestSignature s m u h p r dates \<noteq> []"
proof -
  show l: "length (spec_requestSignature s m u h p r dates) = 64"
    using spec_signature_hex unfolding spec_requestSignature_def by blast
  show "set (spec_requestSignature s m u h p r dates) \<subseteq> set (lit ''0123456789abcdef'')"
    using spec_signature_hex unfolding spec_requestSignature_def by blast
  from l show "spec_requestSignature s m u h p r dates \<noteq> []"
    by auto
qed

lemma signTOSRequest_headers:
  assumes "uri (key options) = Inr u" and "secretAccessKey options = Some s" and "s \<noteq> []"
  shows "snd (signTOSRequest now options) =
    (let dates = formatDate (case date options of None \<Rightarrow> now | Some d \<Rightarrow> d);
         host' = bucket options @ lit ''.'' @ endpoint options;
         hash = payloadHash (contentSha256 options)
     in if headerValid options then
          Inr [(''Host'', headerValueNormalize host'),
               (''X-Tos-Date'', long dates),
               (''X-Tos-Content-Sha256'', headerValueNormalize hash),
               (''Authorization'',
                  spec_authorization (accessKeyId options) (short dates) (region options)
                    (spec_requestSignature s (method' options) u host' hash (region options)
                       dates)),
               (''Content-Type'',
                  headerValueNormalize
                    (case contentType options of
                       None \<Rightarrow> lit ''application/octet-stream'' | Some c \<Rightarrow> c))]
        else Inl TypeError)"
proof -
  define dates where "dates = formatDate (case date options of None \<Rightarrow> now | Some d \<Rightarrow> d)"
  define sig where "sig = spec_requestSignature s (method' options) u
    (bucket options @ lit ''.'' @ endpoint options) (payloadHash (contentSha256 options))
    (region options) dates"
  note a = authorization_accepted [OF short_accepted spec_requestSignature_hex(2,3)]
  have "snd (signTOSRequest now options) =
    (if Headers_accepts (bucket options @ lit ''.'' @ endpoint options)
        \<and> Headers_accepts (long dates)
        \<and> Headers_accepts (payloadHash (contentSha256 options))
        \<and> Headers_accepts
             (spec_authorization (accessKeyId options) (short dates) (region options) sig)
        \<and> Headers_accepts
             (case contentType options of
                None \<Rightarrow> lit ''application/octet-stream'' | Some c \<Rightarrow> c)
     then Inr [(''Host'', headerValueNormalize (bucket options @ lit ''.'' @ endpoint options)),
               (''X-Tos-Date'', headerValueNormalize (long dates)),
               (''X-Tos-Content-Sha256'',
                  headerValueNormalize (payloadHash (contentSha256 options))),
               (''Authorization'',
                  headerValueNormalize
                    (spec_authorization (accessKeyId options) (short dates) (region options)
                       sig)),
               (''Content-Type'',
                  headerValueNormalize
                    (case contentType options of
                       None \<Rightarrow> lit ''application/octet-stream'' | Some c \<Rightarrow> c))]
     else Inl TypeError)"
    using assms
    by (simp add: signTOSRequest_def Let_def hmacSha256_string hmacSha256_buffer
        Headers_set_chain canonicalRequest_spec stringToSign_spec authorization_spec
        bufferToHex_spec_hex host_def dates_def sig_def spec_requestSignature_def
        spec_signature_def)
  also have "\<dots> =
    (if headerValid options then
       Inr [(''Host'', headerValueNormalize (bucket options @ lit ''.'' @ endpoint options)),
            (''X-Tos-Date'', long dates),
            (''X-Tos-Content-Sha256'',
               headerValueNormalize (payloadHash (contentSha256 options))),
            (''Authorization'',
               spec_authorization (accessKeyId options) (short dates) (region options) sig),
            (''Content-Type'',
               headerValueNormalize
                 (case contentType options of
                    None \<Rightarrow> lit ''application/octet-stream'' | Some c \<Rightarrow> c))]
     else Inl TypeError)"
    unfolding dates_def sig_def
    by (simp add: a long_accepted headerValid_def Headers_accepts_def [of "long (formatDate d)" for d])
  finally show ?thesis
    by (simp add: Let_def dates_def sig_def)
qed

lemma signTOSRequest_console:
  assumes "uri (key options) = Inr u"
  shows "fst (signTOSRequest now options) =
    (let dates = formatDate (case date options of None \<Rightarrow> now | Some d \<Rightarrow> d);
         host' = bucket options @ lit ''.'' @ endpoint options;
         hash = payloadHash (contentSha256 options);
         request = spec_canonicalRequest (method' options) u host' hash (long dates)
     in if debug options = Some True then
          [lit ''[TOS Signer] Canonical Request: '' @ request,
           lit ''[TOS Signer] String to Sign: ''
             @ spec_stringToSign (long dates) (short dates) (region options) request]
          @ (case secretAccessKey options of
               None \<Rightarrow> []
             | Some s \<Rightarrow>
                 if s = [] then []
                 else [lit ''[TOS Signer] Signature: ''
                         @ spec_requestSignature s (method' options) u host' hash
                             (region options) dates])
        else [])"
proof (cases "secretAccessKey options")
  case None
  with assms show ?thesis
    by (cases "debug options")
      (simp_all add: signTOSRequest_def Let_def hmacSha256_undefined canonicalRequest_spec
        stringToSign_spec bufferToHex_spec_hex host_def)
next
  case (Some s)
  show ?thesis
  proof (cases "s = []")
    case True
    with assms Some show ?thesis
      by (cases "debug options")
        (simp_all add: signTOSRequest_def Let_def hmacSha256_empty_string
          canonicalRequest_spec stringToSign_spec bufferToHex_spec_hex host_def)
  next
    case False
    with assms Some show ?thesis
      by (cases "debug options")
        (simp_all add: signTOSRequest_def Let_def hmacSha256_string hmacSha256_buffer
          Headers_set_chain canonicalRequest_spec stringToSign_spec authorization_spec
          bufferToHex_spec_hex host_def spec_requestSignature_def spec_signature_def)
  qed
qed

lemma signTOSRequest_outcome:
  "snd (signTOSRequest now options) =
     (case uri (key options) of
        Inl e \<Rightarrow> Inl e
      | Inr u \<Rightarrow>
          (case secretAccessKey options of
             None \<Rightarrow> Inl TypeError
           | Some s \<Rightarrow>
               if s = [] then Inl DataError
               else if \<not> headerValid options then Inl TypeError
               else
                 (let dates = formatDate (case date options of None \<Rightarrow> now | Some d \<Rightarrow> d);
                      host' = bucket options @ lit ''.'' @ endpoint options;
                      hash = payloadHash (contentSha256 options)
                  in Inr [(''Host'', headerValueNormalize host'),
                          (''X-Tos-Date'', long dates),
                          (''X-Tos-Content-Sha256'', headerValueNormalize hash),
                          (''Authorization'',
                             spec_authorization (accessKeyId options) (short dates)
                               (region options)
                               (spec_requestSignature s (method' options) u host' hash
                                  (region options) dates)),
                          (''Content-Type'',
                             headerValueNormalize
                               (case contentType options of
                                  None \<Rightarrow> lit ''application/octet-stream''
                                | Some c \<Rightarrow> c))])))"
proof (cases "uri (key options)")
  case (Inl e)
  then show ?thesis by (simp add: signTOSRequest_uri_error)
next
  case (Inr u)
  show ?thesis
  proof (cases "secretAccessKey options")
    case None
    with Inr show ?thesis by (simp add: signTOSRequest_undefined_secret)
  next
    case (Some s)
    show ?thesis
    proof (cases "s = []")
      case True
      with Inr Some show ?thesis by (simp add: signTOSRequest_empty_secret)
    next
      case False
      with Inr Some signTOSRequest_headers [OF Inr Some False, of now] show ?thesis
        by (simp add: Let_def)
    qed
  qed
qed

section \<open>Properties of the calendar\<close>

lemma div_step:
  fixes k x :: int
  assumes "0 < k"
  shows "(x + 1) div k = x div k + (if (x + 1) mod k = 0 then 1 else 0)"
proof -
  have x: "x = k * (x div k) + x mod k" and r: "0 \<le> x mod k" "x mod k < k"
    using assms by simp_all
  show ?thesis
  proof (cases "x mod k + 1 < k")
    case True
    have eq: "x + 1 = k * (x div k) + (x mod k + 1)"
      using x by simp
    have "(x + 1) div k = x div k"
      by (rule int_div_pos_eq [OF eq]) (use r True in simp_all)
    moreover have "(x + 1) mod k = x mod k + 1"
      by (rule int_mod_pos_eq [OF eq]) (use r True in simp_all)
    ultimately show ?thesis
      using r by simp
  next
    case False
    with r have k: "x mod k + 1 = k"
      by simp
    have "x + 1 = k * (x div k) + (x mod k + 1)"
      using x by simp
    also have "\<dots> = k * (x div k + 1) + 0"
      by (simp only: k) (simp add: algebra_simps)
    finally have eq: "x + 1 = k * (x div k + 1) + 0" .
    have "(x + 1) div k = x div k + 1"
      by (rule int_div_pos_eq [OF eq]) (use assms in simp_all)
    moreover have "(x + 1) mod k = 0"
      by (rule int_mod_pos_eq [OF eq]) (use assms in simp_all)
    ultimately show ?thesis
      by simp
  qed
qed

lemma mod_shift_4: "((y::int) - 1969 + 1) mod 4 = y mod 4"
  by algebra

lemma mod_shift_100: "((y::int) - 1901 + 1) mod 100 = y mod 100"
  by algebra

lemma mod_shift_400: "((y::int) - 1601 + 1) mod 400 = y mod 400"
  by algebra

lemma mod_100_4: "(y::int) mod 100 = 0 \<Longrightarrow> y mod 4 = 0"
proof -
  assume "y mod 100 = 0"
  then have "100 dvd y" by (simp add: dvd_eq_mod_eq_0)
  moreover have "(4::int) dvd 100" by simp
  ultimately have "4 dvd y" by (rule dvd_trans [rotated])
  then show ?thesis by simp
qed

lemma mod_400_100: "(y::int) mod 400 = 0 \<Longrightarrow> y mod 100 = 0"
proof -
  assume "y mod 400 = 0"
  then have "400 dvd y" by (simp add: dvd_eq_mod_eq_0)
  moreover have "(100::int) dvd 400" by simp
  ultimately have "100 dvd y" by (rule dvd_trans [rotated])
  then show ?thesis by simp
qed

lemma DaysInYear_cases: "DaysInYear y = 365 \<or> DaysInYear y = 366"
  by (simp add: DaysInYear_def)

lemma TimeFromYear_le_iff: "TimeFromYear y \<le> t \<longleftrightarrow> DayFromYear y \<le> Day t"
proof
  assume "TimeFromYear y \<le> t"
  then have "(86400000 * DayFromYear y) div 86400000 \<le> t div 86400000"
    unfolding TimeFromYear_def msPerDay_def by (intro zdiv_mono1) simp_all
  then show "DayFromYear y \<le> Day t"
    by (simp add: Day_def msPerDay_def)
next
  assume "DayFromYear y \<le> Day t"
  then have "86400000 * DayFromYear y \<le> 86400000 * (t div 86400000)"
    by (simp add: Day_def msPerDay_def)
  also have "\<dots> \<le> t"
    using mult_div_mod_eq [of 86400000 t] pos_mod_sign [of 86400000 t] by linarith
  finally show "TimeFromYear y \<le> t"
    by (simp add: TimeFromYear_def msPerDay_def)
qed

lemma DayFromYear_Suc: "DayFromYear (y + 1) = DayFromYear y + DaysInYear y"
proof -
  define A B C where "A = (y - 1969) div 4" and "B = (y - 1901) div 100"
    and "C = (y - 1601) div 400"
  have a: "(y - 1968) div 4 = A + (if y mod 4 = 0 then 1 else 0)"
    using div_step [of 4 "y - 1969"] mod_shift_4 [of y] by (simp add: A_def)
  have b: "(y - 1900) div 100 = B + (if y mod 100 = 0 then 1 else 0)"
    using div_step [of 100 "y - 1901"] mod_shift_100 [of y] by (simp add: B_def)
  have c: "(y - 1600) div 400 = C + (if y mod 400 = 0 then 1 else 0)"
    using div_step [of 400 "y - 1601"] mod_shift_400 [of y] by (simp add: C_def)
  have l: "DayFromYear y = 365 * (y - 1970) + A - B + C"
    by (simp add: DayFromYear_def A_def B_def C_def)
  have r: "DayFromYear (y + 1) =
      365 * (y - 1969) + (y - 1968) div 4 - (y - 1900) div 100 + (y - 1600) div 400"
    by (simp add: DayFromYear_def)
  consider "y mod 4 \<noteq> 0" | "y mod 4 = 0" "y mod 100 \<noteq> 0"
    | "y mod 100 = 0" "y mod 400 \<noteq> 0" | "y mod 400 = 0"
    by argo
  then show ?thesis
  proof cases
    case 1
    with mod_100_4 [of y] mod_400_100 [of y] have "y mod 100 \<noteq> 0" "y mod 400 \<noteq> 0"
      by auto
    with 1 show ?thesis
      unfolding l r a b c DaysInYear_def by simp
  next
    case 2
    with mod_400_100 [of y] have "y mod 400 \<noteq> 0"
      by auto
    with 2 show ?thesis
      unfolding l r a b c DaysInYear_def by simp
  next
    case 3
    with mod_100_4 [of y] have "y mod 4 = 0"
      by auto
    with 3 show ?thesis
      unfolding l r a b c DaysInYear_def by simp
  next
    case 4
    with mod_100_4 [of y] mod_400_100 [of y] have "y mod 100 = 0" "y mod 4 = 0"
      by auto
    with 4 show ?thesis
      unfolding l r a b c DaysInYear_def by simp
  qed
qed

lemma yearDown_le: "TimeFromYear (yearDown t y) \<le> t"
proof (induction t y rule: yearDown.induct)
  case (1 t y)
  show ?case
  proof (cases "t < TimeFromYear y")
    case True
    with 1 show ?thesis by (subst yearDown.simps) simp
  next
    case False
    then show ?thesis by (subst yearDown.simps) simp
  qed
qed

lemma yearSearch_bounds:
  "TimeFromYear y \<le> t \<Longrightarrow>
   TimeFromYear (yearSearch t y) \<le> t \<and> t < TimeFromYear (yearSearch t y + 1)"
proof (induction t y rule: yearSearch.induct)
  case (1 t y)
  show ?case
  proof (cases "TimeFromYear (y + 1) \<le> t")
    case True
    with 1 show ?thesis by (subst (1 2) yearSearch.simps) simp
  next
    case False
    with 1 show ?thesis by (subst (1 2) yearSearch.simps) simp
  qed
qed

lemma YearFromTime_bounds:
  "TimeFromYear (YearFromTime t) \<le> t \<and> t < TimeFromYear (YearFromTime t + 1)"
  unfolding YearFromTime_def by (rule yearSearch_bounds) (rule yearDown_le)

lemma DayWithinYear_bounds:
  "0 \<le> DayWithinYear t \<and> DayWithinYear t < DaysInYear (YearFromTime t)"
proof -
  have "DayFromYear (YearFromTime t) \<le> Day t"
    and "\<not> DayFromYear (YearFromTime t + 1) \<le> Day t"
    using YearFromTime_bounds [of t] by (simp_all add: TimeFromYear_le_iff [symmetric])
  then show ?thesis
    by (simp add: DayWithinYear_def DayFromYear_Suc)
qed

lemma DayWithinYear_leap:
  "0 \<le> DayWithinYear t \<and> DayWithinYear t < 365 + InLeapYear t"
  using DayWithinYear_bounds [of t] DaysInYear_cases [of "YearFromTime t"]
  by (auto simp: InLeapYear_def)

lemma InLeapYear_cases: "InLeapYear t = 0 \<or> InLeapYear t = 1"
  by (simp add: InLeapYear_def)

lemma MonthFromTime_bounds: "0 \<le> MonthFromTime t \<and> MonthFromTime t \<le> 11"
  by (simp add: MonthFromTime_def Let_def)

lemma month_date_arith:
  fixes d leap :: int
  assumes "0 \<le> d" "d < 365 + leap" "leap = 0 \<or> leap = 1"
  defines "m \<equiv> (if d < 31 then 0
         else if d < 59 + leap then 1
         else if d < 90 + leap then 2
         else if d < 120 + leap then 3
         else if d < 151 + leap then 4
         else if d < 181 + leap then 5
         else if d < 212 + leap then 6
         else if d < 243 + leap then 7
         else if d < 273 + leap then 8
         else if d < 304 + leap then 9
         else if d < 334 + leap then 10
         else (11::int))"
  shows "1 \<le> (if m = 0 then d + 1
         else if m = 1 then d - 30
         else if m = 2 then d - 58 - leap
         else if m = 3 then d - 89 - leap
         else if m = 4 then d - 119 - leap
         else if m = 5 then d - 150 - leap
         else if m = 6 then d - 180 - leap
         else if m = 7 then d - 211 - leap
         else if m = 8 then d - 242 - leap
         else if m = 9 then d - 272 - leap
         else if m = 10 then d - 303 - leap
         else d - 333 - leap)
      \<and> (if m = 0 then d + 1
         else if m = 1 then d - 30
         else if m = 2 then d - 58 - leap
         else if m = 3 then d - 89 - leap
         else if m = 4 then d - 119 - leap
         else if m = 5 then d - 150 - leap
         else if m = 6 then d - 180 - leap
         else if m = 7 then d - 211 - leap
         else if m = 8 then d - 242 - leap
         else if m = 9 then d - 272 - leap
         else if m = 10 then d - 303 - leap
         else d - 333 - leap) \<le> 31"
proof -
  consider "d < 31" | "31 \<le> d" "d < 59 + leap" | "59 + leap \<le> d" "d < 90 + leap"
    | "90 + leap \<le> d" "d < 120 + leap" | "120 + leap \<le> d" "d < 151 + leap"
    | "151 + leap \<le> d" "d < 181 + leap" | "181 + leap \<le> d" "d < 212 + leap"
    | "212 + leap \<le> d" "d < 243 + leap" | "243 + leap \<le> d" "d < 273 + leap"
    | "273 + leap \<le> d" "d < 304 + leap" | "304 + leap \<le> d" "d < 334 + leap"
    | "334 + leap \<le> d"
    by linarith
  then show ?thesis
    using assms(1-3) unfolding m_def by cases auto
qed

lemma DateFromTime_bounds: "1 \<le> DateFromTime t \<and> DateFromTime t \<le> 31"
  using month_date_arith [of "DayWithinYear t" "InLeapYear t"]
    DayWithinYear_leap [of t] InLeapYear_cases [of t]
  by (simp add: DateFromTime_def MonthFromTime_def Let_def)

lemma time_of_day_bounds:
  "0 \<le> HourFromTime t \<and> HourFromTime t \<le> 23 \<and> 0 \<le> MinFromTime t \<and> MinFromTime t \<le> 59
   \<and> 0 \<le> SecFromTime t \<and> SecFromTime t \<le> 59"
proof -
  have "t div 3600000 mod 24 \<le> 23"
    using pos_mod_bound [of 24 "t div 3600000"] by linarith
  moreover have "t div 60000 mod 60 \<le> 59"
    using pos_mod_bound [of 60 "t div 60000"] by linarith
  moreover have "t div 1000 mod 60 \<le> 59"
    using pos_mod_bound [of 60 "t div 1000"] by linarith
  ultimately show ?thesis
    by (simp add: HourFromTime_def MinFromTime_def SecFromTime_def)
qed

lemma digits10_small: "m < 100 \<Longrightarrow> digits 10 m = (if m < 10 then [m] else [m div 10, m mod 10])"
  by (simp add: digits_less digits_step div_less_iff_less_mult)

lemma pad_two_digits:
  assumes "0 \<le> n" "n \<le> 99"
  shows "padStart 2 (lit ''0'') (String (Some n)) = twoDigits n"
proof -
  have "nat n < 100" using assms by simp
  then show ?thesis
    using assms
    by (simp add: String_def Number_toString_def digits10_small padStart_def twoDigits_def
        lit_def digitChar_def div_less_iff_less_mult)
qed

lemma digits10_four:
  assumes "1000 \<le> m" "m \<le> 9999"
  shows "digits 10 m = [m div 1000, m div 100 mod 10, m div 10 mod 10, m mod 10]"
proof -
  have a: "digits 10 m = digits 10 (m div 10) @ [m mod 10]"
    using assms by (simp add: digits_step)
  have "10 \<le> m div 10"
    using assms by (simp add: less_eq_div_iff_mult_less_eq)
  then have b: "digits 10 (m div 10) = digits 10 (m div 100) @ [m div 10 mod 10]"
    by (simp add: digits_step div_mult2_eq [symmetric])
  have "m div 100 < 100" "\<not> m div 100 < 10"
    using assms by (simp_all add: div_less_iff_less_mult less_eq_div_iff_mult_less_eq not_less)
  then have c: "digits 10 (m div 100) = [m div 1000, m div 100 mod 10]"
    by (simp add: digits10_small div_mult2_eq [symmetric])
  show ?thesis by (simp add: a b c)
qed

lemma string_four_digits:
  assumes "1000 \<le> n" "n \<le> 9999"
  shows "String (Some n) = fourDigits n"
proof -
  have "1000 \<le> nat n" "nat n \<le> 9999" using assms by simp_all
  then show ?thesis
    using assms by (simp add: String_def Number_toString_def digits10_four fourDigits_def)
qed

lemma DayFromYear_mono_nat: "DayFromYear y \<le> DayFromYear (y + int n)"
proof (induction n)
  case 0
  show ?case by simp
next
  case (Suc n)
  have "DayFromYear (y + int (Suc n)) = DayFromYear (y + int n) + DaysInYear (y + int n)"
    using DayFromYear_Suc [of "y + int n"] by (simp add: ac_simps)
  with Suc DaysInYear_cases [of "y + int n"] show ?case
    by linarith
qed

lemma TimeFromYear_mono: "y \<le> y' \<Longrightarrow> TimeFromYear y \<le> TimeFromYear y'"
  using DayFromYear_mono_nat [of y "nat (y' - y)"]
  by (simp add: TimeFromYear_def msPerDay_def)

lemma YearFromTime_between:
  assumes "TimeFromYear a \<le> t" and "t < TimeFromYear b"
  shows "a \<le> YearFromTime t \<and> YearFromTime t < b"
proof -
  have y: "TimeFromYear (YearFromTime t) \<le> t" "t < TimeFromYear (YearFromTime t + 1)"
    using YearFromTime_bounds [of t] by simp_all
  have "a \<le> YearFromTime t"
  proof (rule ccontr)
    assume "\<not> a \<le> YearFromTime t"
    then have "TimeFromYear (YearFromTime t + 1) \<le> TimeFromYear a"
      by (intro TimeFromYear_mono) simp
    with assms(1) y(2) show False by linarith
  qed
  moreover have "YearFromTime t < b"
  proof (rule ccontr)
    assume "\<not> YearFromTime t < b"
    then have "TimeFromYear b \<le> TimeFromYear (YearFromTime t)"
      by (intro TimeFromYear_mono) simp
    with assms(2) y(1) show False by linarith
  qed
  ultimately show ?thesis ..
qed

lemma TimeFromYear_1000: "TimeFromYear 1000 = - 30610224000000"
  by (simp add: TimeFromYear_def DayFromYear_def msPerDay_def)

lemma TimeFromYear_10000: "TimeFromYear 10000 = 253402300800000"
  by (simp add: TimeFromYear_def DayFromYear_def msPerDay_def)

lemma formatDate_fields:
  assumes "1000 \<le> YearFromTime t" and "YearFromTime t \<le> 9999"
  shows "formatDate (TimeValue t) =
    \<lparr> short = fourDigits (YearFromTime t) @ twoDigits (MonthFromTime t + 1)
               @ twoDigits (DateFromTime t),
      long = fourDigits (YearFromTime t) @ twoDigits (MonthFromTime t + 1)
               @ twoDigits (DateFromTime t) @ lit ''T'' @ twoDigits (HourFromTime t)
               @ twoDigits (MinFromTime t) @ twoDigits (SecFromTime t) @ lit ''Z'' \<rparr>"
  using assms MonthFromTime_bounds [of t] DateFromTime_bounds [of t] time_of_day_bounds [of t]
  by (simp add: formatDate_def getUTCFullYear_def getUTCMonth_def getUTCDate_def
      getUTCHours_def getUTCMinutes_def getUTCSeconds_def pad_two_digits string_four_digits
      Let_def)

lemmas calendar_eval =
  formatDate_def getUTCFullYear_def getUTCMonth_def getUTCDate_def getUTCHours_def
  getUTCMinutes_def getUTCSeconds_def YearFromTime_def yearDown.simps yearSearch.simps
  MonthFromTime_def DateFromTime_def HourFromTime_def MinFromTime_def SecFromTime_def
  DayWithinYear_def InLeapYear_def DaysInYear_def DayFromYear_def TimeFromYear_def Day_def
  msPerDay_def String_def Number_toString_def digits.simps padStart_def lit_def digitChar_def

lemma formatDate_2025:
  "formatDate (TimeValue 1735689600000) =
     \<lparr> short = lit ''20250101'', long = lit ''20250101T000000Z'' \<rparr>"
  by (simp add: calendar_eval)

lemma formatDate_10000:
  "short (formatDate (TimeValue 253402300800000)) = lit ''100000101''"
  by (simp add: calendar_eval)

section \<open>The claims\<close>

lemmas encode_eval =
  uri_def uriEncode_def replaceChar_def uriUnreserved_def lit_def isLowSurrogate_def
  isHighSurrogate_def percentEncode_def percentOctet_def utf8_def padStart_def
  digitCharUpper_def digits.simps

lemmas header_eval =
  headerValid_def Headers_accepts_def isByteString_def isHeaderValue_def
  headerValueNormalize_def isHTTPWhitespace_def payloadHash_def logicalOr_def lit_def

lemma uri_empty: "uri [] = Inr (lit ''/'')"
  by (simp add: uri_def uriEncode_def)

lemma uri_specialKey:
  "uri specialKey = Inr (lit ''/path/to/%E6%96%87%E4%BB%B6%20%281%29.txt'')"
  by (simp add: specialKey_def encode_eval)

lemma isWellFormed_specialKey: "isWellFormed specialKey"
  by (simp add: specialKey_def lit_def isLowSurrogate_def isHighSurrogate_def)

lemma encodeURIComponent_error: "encodeURIComponent s = Inl e \<Longrightarrow> e = URIError"
  by (induction s arbitrary: e rule: encodeURIComponent.induct)
    (auto split: sum.splits if_splits list.splits)

lemma uri_error: "uri s = Inl e \<Longrightarrow> e = URIError"
  using encodeURIComponent_error [of s e]
  by (auto simp: uri_def uriEncode_def Let_def split: sum.splits)

text \<open>
  \<^verbatim>\<open>signTOSRequest\<close> returns headers exactly for the requests whose key has no unpaired
  surrogate, whose secret is not empty and whose header values are accepted.
\<close>

lemma signTOSRequest_succeeds:
  assumes "isWellFormed (key options)" and "secretAccessKey options = Some s" and "s \<noteq> []"
    and "headerValid options"
  shows "\<exists>h. snd (signTOSRequest now options) = Inr h"
proof -
  obtain u where "uri (key options) = Inr u"
    using assms(1) uri_wellFormed by blast
  from signTOSRequest_headers [OF this assms(2,3)] assms(4) show ?thesis
    by (simp add: Let_def)
qed

lemma signTOSRequest_result:
  assumes "snd (signTOSRequest now options) = Inr h"
  shows "\<exists>s u. secretAccessKey options = Some s \<and> s \<noteq> [] \<and> uri (key options) = Inr u
    \<and> headerValid options
    \<and> h =
        [(''Host'', headerValueNormalize (bucket options @ lit ''.'' @ endpoint options)),
         (''X-Tos-Date'',
            long (formatDate (case date options of None \<Rightarrow> now | Some d \<Rightarrow> d))),
         (''X-Tos-Content-Sha256'', headerValueNormalize (payloadHash (contentSha256 options))),
         (''Authorization'',
            spec_authorization (accessKeyId options)
              (short (formatDate (case date options of None \<Rightarrow> now | Some d \<Rightarrow> d)))
              (region options)
              (spec_requestSignature s (method' options) u
                 (bucket options @ lit ''.'' @ endpoint options)
                 (payloadHash (contentSha256 options)) (region options)
                 (formatDate (case date options of None \<Rightarrow> now | Some d \<Rightarrow> d)))),
         (''Content-Type'',
            headerValueNormalize
              (case contentType options of
                 None \<Rightarrow> lit ''application/octet-stream'' | Some c \<Rightarrow> c))]"
  using assms
  by (simp add: signTOSRequest_outcome Let_def split: sum.splits option.splits if_splits)

lemma exampleOptions_accepted:
  "isWellFormed (key exampleOptions)"
  "secretAccessKey exampleOptions = Some (lit ''test-secret-key'')"
  "lit ''test-secret-key'' \<noteq> []"
  "headerValid exampleOptions"
  by (simp_all add: exampleOptions_def header_eval isLowSurrogate_def isHighSurrogate_def)

lemma exampleOptions_signed: "\<exists>h. snd (signTOSRequest now exampleOptions) = Inr h"
  using exampleOptions_accepted by (rule signTOSRequest_succeeds)

text \<open>
  C4.  For every object key, the canonical URI is \<^verbatim>\<open>/\<close> followed by the result of
  \<^verbatim>\<open>encodeURIComponent\<close> with \<^verbatim>\<open>! ' ( ) *\<close> then replaced by \<^verbatim>\<open>%21 %27 %28 %29 %2A\<close> and
  every \<^verbatim>\<open>%2F\<close> then replaced by \<^verbatim>\<open>/\<close>; this is the one-pass encoding that keeps
  letters, digits, \<^verbatim>\<open>- _ . ~\<close> and \<^verbatim>\<open>/\<close> and percent-encodes every other code point.
  The empty key gives \<^verbatim>\<open>/\<close>; the key with a space, parentheses and non-ASCII
  characters gives \<^verbatim>\<open>/path/to/%E6%96%87%E4%BB%B6%20%281%29.txt\<close>.  In
  \<^verbatim>\<open>signTOSRequest\<close>, a key that cannot be encoded (one with an unpaired surrogate)
  ends the call with the \<^verbatim>\<open>URIError\<close> before anything is written; otherwise the
  canonical URI is the second line of the canonical request that is written to the
  console and whose hash is signed: the \<^verbatim>\<open>Authorization\<close> header of a result carries
  the signature of that canonical request.  Every request whose key has no unpaired
  surrogate, whose secret is not empty and whose header values are accepted is signed
  without error.
\<close>

theorem canonical_uri_encoding:
  "uri k =
     (case encodeURIComponent k of
        Inl e \<Rightarrow> Inl e
      | Inr r \<Rightarrow>
          Inr (lit ''/'' @ replace2F (replaceChar 0x2A (lit ''%2A'') (replaceChar 0x29 (lit ''%29'')
            (replaceChar 0x28 (lit ''%28'') (replaceChar 0x27 (lit ''%27'')
              (replaceChar 0x21 (lit ''%21'') r)))))))
   \<and> uri k = (case encodeKey k of Inl e \<Rightarrow> Inl e | Inr r \<Rightarrow> Inr (lit ''/'' @ r))
   \<and> uri [] = Inr (lit ''/'')
   \<and> uri specialKey = Inr (lit ''/path/to/%E6%96%87%E4%BB%B6%20%281%29.txt'')
   \<and> isWellFormed specialKey
   \<and> (isWellFormed k \<longleftrightarrow> (\<exists>u. uri k = Inr u))
   \<and> (signTOSRequest now options = ([], Inl URIError) \<longleftrightarrow> \<not> isWellFormed (key options))
   \<and> (uri (key options) = Inr u \<and> debug options = Some True \<longrightarrow>
        hd (fst (signTOSRequest now options)) =
          lit ''[TOS Signer] Canonical Request: '' @ method' options @ newline
            @ u @ newline
            @ newline
            @ lit ''host:'' @ bucket options @ lit ''.'' @ endpoint options @ newline
            @ lit ''x-tos-content-sha256:'' @ payloadHash (contentSha256 options) @ newline
            @ lit ''x-tos-date:''
            @ long (formatDate (case date options of None \<Rightarrow> now | Some d \<Rightarrow> d)) @ newline
            @ newline
            @ lit ''host;x-tos-content-sha256;x-tos-date'' @ newline
            @ payloadHash (contentSha256 options))
   \<and> (snd (signTOSRequest now options) = Inr h \<longrightarrow>
        (\<exists>s u'. secretAccessKey options = Some s \<and> uri (key options) = Inr u'
           \<and> Headers_get h ''Authorization'' =
               Some (spec_authorization (accessKeyId options)
                 (short (formatDate (case date options of None \<Rightarrow> now | Some d \<Rightarrow> d)))
                 (region options)
                 (spec_signature s
                    (short (formatDate (case date options of None \<Rightarrow> now | Some d \<Rightarrow> d)))
                    (region options)
                    (spec_stringToSign
                       (long (formatDate (case date options of None \<Rightarrow> now | Some d \<Rightarrow> d)))
                       (short (formatDate (case date options of None \<Rightarrow> now | Some d \<Rightarrow> d)))
                       (region options)
                       (spec_canonicalRequest (method' options) u'
                          (bucket options @ lit ''.'' @ endpoint options)
                          (payloadHash (contentSha256 options))
                          (long (formatDate
                             (case date options of None \<Rightarrow> now | Some d \<Rightarrow> d)))))))))
   \<and> (isWellFormed (key options) \<and> secretAccessKey options = Some s \<and> s \<noteq> []
        \<and> headerValid options \<longrightarrow>
        (\<exists>h'. snd (signTOSRequest now options) = Inr h'))"
proof (intro conjI impI)
  show "uri k =
     (case encodeURIComponent k of
        Inl e \<Rightarrow> Inl e
      | Inr r \<Rightarrow>
          Inr (lit ''/'' @ replace2F (replaceChar 0x2A (lit ''%2A'') (replaceChar 0x29 (lit ''%29'')
            (replaceChar 0x28 (lit ''%28'') (replaceChar 0x27 (lit ''%27'')
              (replaceChar 0x21 (lit ''%21'') r)))))))"
    by (simp add: uri_def uriEncode_passes escapeMarks_def split: sum.split)
  show "uri k = (case encodeKey k of Inl e \<Rightarrow> Inl e | Inr r \<Rightarrow> Inr (lit ''/'' @ r))"
    by (simp add: uri_def uriEncode_encodeKey)
  show "uri [] = Inr (lit ''/'')"
    by (rule uri_empty)
  show "uri specialKey = Inr (lit ''/path/to/%E6%96%87%E4%BB%B6%20%281%29.txt'')"
    by (rule uri_specialKey)
  show "isWellFormed specialKey"
    by (rule isWellFormed_specialKey)
  show "isWellFormed k \<longleftrightarrow> (\<exists>u. uri k = Inr u)"
    using uri_wellFormed [of k] by simp
  show "signTOSRequest now options = ([], Inl URIError) \<longleftrightarrow> \<not> isWellFormed (key options)"
  proof (cases "uri (key options)")
    case (Inl e)
    with uri_error have "e = URIError"
      by blast
    with Inl show ?thesis
      using uri_wellFormed [of "key options"] by (simp add: signTOSRequest_uri_error)
  next
    case (Inr u)
    then have "snd (signTOSRequest now options) \<noteq> Inl URIError"
      by (simp add: signTOSRequest_outcome Let_def split: option.split)
    then have "signTOSRequest now options \<noteq> ([], Inl URIError)"
      by auto
    with Inr show ?thesis
      using uri_wellFormed [of "key options"] by auto
  qed
next
  assume "uri (key options) = Inr u \<and> debug options = Some True"
  then have u: "uri (key options) = Inr u" and d: "debug options = Some True"
    by simp_all
  show "hd (fst (signTOSRequest now options)) =
          lit ''[TOS Signer] Canonical Request: '' @ method' options @ newline
            @ u @ newline
            @ newline
            @ lit ''host:'' @ bucket options @ lit ''.'' @ endpoint options @ newline
            @ lit ''x-tos-content-sha256:'' @ payloadHash (contentSha256 options) @ newline
            @ lit ''x-tos-date:''
            @ long (formatDate (case date options of None \<Rightarrow> now | Some d \<Rightarrow> d)) @ newline
            @ newline
            @ lit ''host;x-tos-content-sha256;x-tos-date'' @ newline
            @ payloadHash (contentSha256 options)"
    using signTOSRequest_console [OF u, of now] d
    by (simp add: Let_def spec_canonicalRequest_def newline_def)
next
  assume "snd (signTOSRequest now options) = Inr h"
  from signTOSRequest_result [OF this] obtain s u' where
    s: "secretAccessKey options = Some s" and u: "uri (key options) = Inr u'"
    and h: "Headers_get h ''Authorization'' =
      Some (spec_authorization (accessKeyId options)
        (short (formatDate (case date options of None \<Rightarrow> now | Some d \<Rightarrow> d)))
        (region options)
        (spec_requestSignature s (method' options) u'
           (bucket options @ lit ''.'' @ endpoint options)
           (payloadHash (contentSha256 options)) (region options)
           (formatDate (case date options of None \<Rightarrow> now | Some d \<Rightarrow> d))))"
    by (auto simp: header_names)
  from s u h show "\<exists>s u'. secretAccessKey options = Some s \<and> uri (key options) = Inr u'
           \<and> Headers_get h ''Authorization'' =
               Some (spec_authorization (accessKeyId options)
                 (short (formatDate (case date options of None \<Rightarrow> now | Some d \<Rightarrow> d)))
                 (region options)
                 (spec_signature s
                    (short (formatDate (case date options of None \<Rightarrow> now | Some d \<Rightarrow> d)))
                    (region options)
                    (spec_stringToSign
                       (long (formatDate (case date options of None \<Rightarrow> now | Some d \<Rightarrow> d)))
                       (short (formatDate (case date options of None \<Rightarrow> now | Some d \<Rightarrow> d)))
                       (region options)
                       (spec_canonicalRequest (method' options) u'
                          (bucket options @ lit ''.'' @ endpoint options)
                          (payloadHash (contentSha256 options))
                          (long (formatDate
                             (case date options of None \<Rightarrow> now | Some d \<Rightarrow> d)))))))"
    unfolding spec_requestSignature_def by blast
next
  assume "isWellFormed (key options) \<and> secretAccessKey options = Some s \<and> s \<noteq> []
        \<and> headerValid options"
  then show "\<exists>h'. snd (signTOSRequest now options) = Inr h'"
    using signTOSRequest_succeeds [of options s now] by simp
qed

theorem canonical_uri_encoding_witness:
  "isWellFormed (key (exampleOptions\<lparr>key := specialKey, debug := Some True\<rparr>))
   \<and> secretAccessKey (exampleOptions\<lparr>key := specialKey, debug := Some True\<rparr>) =
       Some (lit ''test-secret-key'')
   \<and> lit ''test-secret-key'' \<noteq> []
   \<and> headerValid (exampleOptions\<lparr>key := specialKey, debug := Some True\<rparr>)
   \<and> uri (key (exampleOptions\<lparr>key := specialKey, debug := Some True\<rparr>)) =
       Inr (lit ''/path/to/%E6%96%87%E4%BB%B6%20%281%29.txt'')
   \<and> debug (exampleOptions\<lparr>key := specialKey, debug := Some True\<rparr>) = Some True
   \<and> hd (fst (signTOSRequest InvalidDate
              (exampleOptions\<lparr>key := specialKey, debug := Some True\<rparr>))) =
       lit ''[TOS Signer] Canonical Request: PUT'' @ newline
         @ lit ''/path/to/%E6%96%87%E4%BB%B6%20%281%29.txt'' @ newline
         @ newline
         @ lit ''host:test-bucket.tos-cn-beijing.volces.com'' @ newline
         @ lit ''x-tos-content-sha256:test-sha256'' @ newline
         @ lit ''x-tos-date:20250101T000000Z'' @ newline
         @ newline
         @ lit ''host;x-tos-content-sha256;x-tos-date'' @ newline
         @ lit ''test-sha256''
   \<and> (\<exists>h. snd (signTOSRequest InvalidDate
                  (exampleOptions\<lparr>key := specialKey, debug := Some True\<rparr>)) = Inr h)
   \<and> signTOSRequest InvalidDate (exampleOptions\<lparr>key := [0xD800]\<rparr>) = ([], Inl URIError)"
proof -
  let ?o = "exampleOptions\<lparr>key := specialKey, debug := Some True\<rparr>"
  have k: "isWellFormed (key ?o)"
    by (simp add: isWellFormed_specialKey)
  have s: "secretAccessKey ?o = Some (lit ''test-secret-key'')" "lit ''test-secret-key'' \<noteq> []"
    by (simp_all add: exampleOptions_def lit_def)
  have v: "headerValid ?o"
    using exampleOptions_accepted(4) by (simp add: headerValid_def)
  have u: "uri (key ?o) = Inr (lit ''/path/to/%E6%96%87%E4%BB%B6%20%281%29.txt'')"
    by (simp add: uri_specialKey)
  have d: "debug ?o = Some True"
    by simp
  have f: "method' ?o = lit ''PUT''" "bucket ?o = lit ''test-bucket''"
    "endpoint ?o = lit ''tos-cn-beijing.volces.com''"
    "payloadHash (contentSha256 ?o) = lit ''test-sha256''"
    "long (formatDate (case date ?o of None \<Rightarrow> InvalidDate | Some d \<Rightarrow> d)) =
       lit ''20250101T000000Z''"
    by (simp_all add: exampleOptions_def formatDate_2025 payloadHash_def logicalOr_def lit_def)
  from canonical_uri_encoding
    [where options = ?o and now = InvalidDate and s = "lit ''test-secret-key''"
      and u = "lit ''/path/to/%E6%96%87%E4%BB%B6%20%281%29.txt''"]
  have "hd (fst (signTOSRequest InvalidDate ?o)) =
          lit ''[TOS Signer] Canonical Request: '' @ method' ?o @ newline
            @ lit ''/path/to/%E6%96%87%E4%BB%B6%20%281%29.txt'' @ newline
            @ newline
            @ lit ''host:'' @ bucket ?o @ lit ''.'' @ endpoint ?o @ newline
            @ lit ''x-tos-content-sha256:'' @ payloadHash (contentSha256 ?o) @ newline
            @ lit ''x-tos-date:''
            @ long (formatDate (case date ?o of None \<Rightarrow> InvalidDate | Some d \<Rightarrow> d)) @ newline
            @ newline
            @ lit ''host;x-tos-content-sha256;x-tos-date'' @ newline
            @ payloadHash (contentSha256 ?o)"
    and "\<exists>h. snd (signTOSRequest InvalidDate ?o) = Inr h"
    using k s v u d by blast+
  moreover from canonical_uri_encoding
    [where options = "exampleOptions\<lparr>key := [0xD800]\<rparr>" and now = InvalidDate]
  have "signTOSRequest InvalidDate (exampleOptions\<lparr>key := [0xD800]\<rparr>) = ([], Inl URIError)"
    by (simp add: isLowSurrogate_def isHighSurrogate_def)
  ultimately show ?thesis
    using k s v u d unfolding f by (simp add: lit_def)
qed

lemma formatDate_999:
  "short (formatDate (TimeValue (- 30610224000001))) = lit ''9991231''"
  by (simp add: calendar_eval)

lemma formatDate_10000_long:
  "long (formatDate (TimeValue 253402300800000)) = lit ''100000101T000000Z''"
  by (simp add: calendar_eval)

text \<open>
  C7, as stated, fails: the year is written without padding or truncation, so the
  instant 10000-01-01T00:00:00Z has a five-digit year (and the last millisecond of the year
  999 a three-digit one).
\<close>

theorem formatDate_year_not_four_digits:
  "short (formatDate (TimeValue 253402300800000)) = lit ''100000101''
   \<and> long (formatDate (TimeValue 253402300800000)) = lit ''100000101T000000Z''
   \<and> short (formatDate (TimeValue (- 30610224000001))) = lit ''9991231''"
  using formatDate_10000 formatDate_10000_long formatDate_999 by simp

text \<open>
  C7, amended.  For every instant from 1000-01-01T00:00:00.000Z to
  9999-12-31T23:59:59.999Z, the UTC year has four digits, the month is 1..12, the day
  1..31, the hours 0..23, the minutes and seconds 0..59; the short form is the four
  digits of the year and the two digits each of month and day, and the long form is the
  short form, \<^verbatim>\<open>T\<close>, the two digits each of hours, minutes and seconds, and \<^verbatim>\<open>Z\<close>.
  The instant 2025-01-01T00:00:00Z gives \<^verbatim>\<open>20250101\<close> and \<^verbatim>\<open>20250101T000000Z\<close>, and
  the result of a request signed at that instant carries the latter as its
  \<^verbatim>\<open>X-Tos-Date\<close> header.
\<close>

theorem formatDate_zero_padded:
  "(- 30610224000000 \<le> t \<and> t < 253402300800000 \<longrightarrow>
      1000 \<le> YearFromTime t \<and> YearFromTime t \<le> 9999
      \<and> 1 \<le> MonthFromTime t + 1 \<and> MonthFromTime t + 1 \<le> 12
      \<and> 1 \<le> DateFromTime t \<and> DateFromTime t \<le> 31
      \<and> 0 \<le> HourFromTime t \<and> HourFromTime t \<le> 23
      \<and> 0 \<le> MinFromTime t \<and> MinFromTime t \<le> 59
      \<and> 0 \<le> SecFromTime t \<and> SecFromTime t \<le> 59
      \<and> short (formatDate (TimeValue t)) =
          fourDigits (YearFromTime t) @ twoDigits (MonthFromTime t + 1)
            @ twoDigits (DateFromTime t)
      \<and> long (formatDate (TimeValue t)) =
          short (formatDate (TimeValue t)) @ lit ''T'' @ twoDigits (HourFromTime t)
            @ twoDigits (MinFromTime t) @ twoDigits (SecFromTime t) @ lit ''Z''
      \<and> length (short (formatDate (TimeValue t))) = 8
      \<and> length (long (formatDate (TimeValue t))) = 16)
   \<and> formatDate (TimeValue 1735689600000) =
        \<lparr> short = lit ''20250101'', long = lit ''20250101T000000Z'' \<rparr>
   \<and> (snd (signTOSRequest now options) = Inr h
        \<and> date options = Some (TimeValue 1735689600000) \<longrightarrow>
        Headers_get h ''X-Tos-Date'' = Some (lit ''20250101T000000Z''))"
proof (intro conjI impI)
  assume "snd (signTOSRequest now options) = Inr h
        \<and> date options = Some (TimeValue 1735689600000)"
  then have r: "snd (signTOSRequest now options) = Inr h"
    and d: "date options = Some (TimeValue 1735689600000)"
    by simp_all
  from signTOSRequest_result [OF r]
  show "Headers_get h ''X-Tos-Date'' = Some (lit ''20250101T000000Z'')"
    by (auto simp: d formatDate_2025 header_names)
next
  show "formatDate (TimeValue 1735689600000) =
        \<lparr> short = lit ''20250101'', long = lit ''20250101T000000Z'' \<rparr>"
    by (rule formatDate_2025)
next
  assume "- 30610224000000 \<le> t \<and> t < 253402300800000"
  then have y: "1000 \<le> YearFromTime t" "YearFromTime t \<le> 9999"
    using YearFromTime_between [of 1000 t 10000]
    by (simp_all add: TimeFromYear_1000 TimeFromYear_10000)
  note f = formatDate_fields [OF y]
  show "1000 \<le> YearFromTime t" "YearFromTime t \<le> 9999"
    by (rule y)+
  show "1 \<le> MonthFromTime t + 1" "MonthFromTime t + 1 \<le> 12"
    using MonthFromTime_bounds [of t] by simp_all
  show "1 \<le> DateFromTime t" "DateFromTime t \<le> 31"
    using DateFromTime_bounds [of t] by simp_all
  show "0 \<le> HourFromTime t" "HourFromTime t \<le> 23" "0 \<le> MinFromTime t"
    "MinFromTime t \<le> 59" "0 \<le> SecFromTime t" "SecFromTime t \<le> 59"
    using time_of_day_bounds [of t] by simp_all
  show "short (formatDate (TimeValue t)) =
          fourDigits (YearFromTime t) @ twoDigits (MonthFromTime t + 1)
            @ twoDigits (DateFromTime t)"
    by (simp add: f)
  show "long (formatDate (TimeValue t)) =
          short (formatDate (TimeValue t)) @ lit ''T'' @ twoDigits (HourFromTime t)
            @ twoDigits (MinFromTime t) @ twoDigits (SecFromTime t) @ lit ''Z''"
    by (simp add: f)
  show "length (short (formatDate (TimeValue t))) = 8"
    by (simp add: f fourDigits_def twoDigits_def)
  show "length (long (formatDate (TimeValue t))) = 16"
    by (simp add: f fourDigits_def twoDigits_def lit_def)
qed

theorem formatDate_zero_padded_witness:
  "- 30610224000000 \<le> (1735689600000::int) \<and> (1735689600000::int) < 253402300800000
   \<and> date exampleOptions = Some (TimeValue 1735689600000)
   \<and> length (long (formatDate (TimeValue 1735689600000))) = 16
   \<and> (\<exists>h. snd (signTOSRequest InvalidDate exampleOptions) = Inr h
         \<and> Headers_get h ''X-Tos-Date'' = Some (lit ''20250101T000000Z''))"
proof -
  obtain h where h: "snd (signTOSRequest InvalidDate exampleOptions) = Inr h"
    using exampleOptions_signed by blast
  have d: "date exampleOptions = Some (TimeValue 1735689600000)"
    by (simp add: exampleOptions_def)
  from formatDate_zero_padded
    [where t = 1735689600000 and now = InvalidDate and options = exampleOptions and h = h] h d
  show ?thesis
    by auto
qed

text \<open>
  C1.  Whenever \<^verbatim>\<open>signTOSRequest\<close> returns headers, the request has a secret and a
  canonical URI, and the calls of \<^verbatim>\<open>hmacSha256\<close> compute: \<open>kDate\<close>, the HMAC-SHA256 of
  the short date under the UTF-8 octets of the secret; \<open>kRegion\<close>, that of the region
  under the octets of \<open>kDate\<close>; \<open>kService\<close>, that of \<^verbatim>\<open>tos\<close> under \<open>kRegion\<close>;
  \<open>kSigning\<close>, that of \<^verbatim>\<open>request\<close> under \<open>kService\<close>; and the signature, which is the
  lowercase hexadecimal form (two digits for each octet) of the HMAC-SHA256 of the string
  to sign under \<open>kSigning\<close>: 64 digits, which end the \<^verbatim>\<open>Authorization\<close> header and are
  written to the console when \<^verbatim>\<open>debug\<close> is on.  Each key is passed on as octets.
\<close>

theorem signing_key_chain:
  assumes "snd (signTOSRequest now options) = Inr h"
  shows
    "\<exists>s u. secretAccessKey options = Some s \<and> uri (key options) = Inr u \<and>
      (let dates = formatDate (case date options of None \<Rightarrow> now | Some d \<Rightarrow> d);
           kDate = HMAC_SHA256 (TextEncoder_encode s) (TextEncoder_encode (short dates));
           kRegion = HMAC_SHA256 kDate (TextEncoder_encode (region options));
           kService = HMAC_SHA256 kRegion (TextEncoder_encode (lit ''tos''));
           kSigning = HMAC_SHA256 kService (TextEncoder_encode (lit ''request''));
           toSign = spec_stringToSign (long dates) (short dates) (region options)
             (spec_canonicalRequest (method' options) u
                (bucket options @ lit ''.'' @ endpoint options)
                (payloadHash (contentSha256 options)) (long dates));
           signature = spec_hex (HMAC_SHA256 kSigning (TextEncoder_encode toSign))
       in hmacSha256 (KeyString s) (short dates) = Inr kDate
          \<and> hmacSha256 (KeyBuffer kDate) (region options) = Inr kRegion
          \<and> hmacSha256 (KeyBuffer kRegion) (lit ''tos'') = Inr kService
          \<and> hmacSha256 (KeyBuffer kService) (lit ''request'') = Inr kSigning
          \<and> hmacSha256 (KeyBuffer kSigning) toSign =
              Inr (HMAC_SHA256 kSigning (TextEncoder_encode toSign))
          \<and> bufferToHex (HMAC_SHA256 kSigning (TextEncoder_encode toSign)) = signature
          \<and> Headers_get h ''Authorization'' =
              Some (lit ''TOS4-HMAC-SHA256 Credential='' @ accessKeyId options @ lit ''/''
                @ short dates @ lit ''/'' @ region options
                @ lit ''/tos/request, SignedHeaders=host;x-tos-content-sha256;x-tos-date, Signature=''
                @ signature)
          \<and> (debug options = Some True \<longrightarrow>
                fst (signTOSRequest now options) ! 2 =
                  lit ''[TOS Signer] Signature: '' @ signature)
          \<and> length signature = 64
          \<and> set signature \<subseteq> set (lit ''0123456789abcdef''))"
proof -
  from signTOSRequest_result [OF assms] obtain s u where
    s: "secretAccessKey options = Some s" and n: "s \<noteq> []" and u: "uri (key options) = Inr u"
    and h: "Headers_get h ''Authorization'' =
      Some (spec_authorization (accessKeyId options)
        (short (formatDate (case date options of None \<Rightarrow> now | Some d \<Rightarrow> d)))
        (region options)
        (spec_requestSignature s (method' options) u
           (bucket options @ lit ''.'' @ endpoint options)
           (payloadHash (contentSha256 options)) (region options)
           (formatDate (case date options of None \<Rightarrow> now | Some d \<Rightarrow> d))))"
    by (auto simp: header_names)
  define dates where "dates = formatDate (case date options of None \<Rightarrow> now | Some d \<Rightarrow> d)"
  define kDate where
    "kDate = HMAC_SHA256 (TextEncoder_encode s) (TextEncoder_encode (short dates))"
  define kRegion where "kRegion = HMAC_SHA256 kDate (TextEncoder_encode (region options))"
  define kService where "kService = HMAC_SHA256 kRegion (TextEncoder_encode (lit ''tos''))"
  define kSigning where "kSigning = HMAC_SHA256 kService (TextEncoder_encode (lit ''request''))"
  define toSign where "toSign = spec_stringToSign (long dates) (short dates) (region options)
    (spec_canonicalRequest (method' options) u
       (bucket options @ lit ''.'' @ endpoint options)
       (payloadHash (contentSha256 options)) (long dates))"
  define signature where
    "signature = spec_hex (HMAC_SHA256 kSigning (TextEncoder_encode toSign))"
  have sig: "spec_requestSignature s (method' options) u
      (bucket options @ lit ''.'' @ endpoint options)
      (payloadHash (contentSha256 options)) (region options) dates = signature"
    by (simp add: spec_requestSignature_def spec_signature_def signature_def toSign_def
        kSigning_def kService_def kRegion_def kDate_def)
  have 1: "hmacSha256 (KeyString s) (short dates) = Inr kDate"
    by (simp add: hmacSha256_string n kDate_def)
  have 2: "hmacSha256 (KeyBuffer kDate) (region options) = Inr kRegion"
    by (simp add: hmacSha256_buffer kDate_def kRegion_def)
  have 3: "hmacSha256 (KeyBuffer kRegion) (lit ''tos'') = Inr kService"
    by (simp add: hmacSha256_buffer kRegion_def kService_def)
  have 4: "hmacSha256 (KeyBuffer kService) (lit ''request'') = Inr kSigning"
    by (simp add: hmacSha256_buffer kService_def kSigning_def)
  have 5: "hmacSha256 (KeyBuffer kSigning) toSign =
      Inr (HMAC_SHA256 kSigning (TextEncoder_encode toSign))"
    by (simp add: hmacSha256_buffer kSigning_def)
  have 6: "bufferToHex (HMAC_SHA256 kSigning (TextEncoder_encode toSign)) = signature"
    by (simp add: bufferToHex_spec_hex signature_def)
  have 7: "Headers_get h ''Authorization'' =
      Some (lit ''TOS4-HMAC-SHA256 Credential='' @ accessKeyId options @ lit ''/''
        @ short dates @ lit ''/'' @ region options
        @ lit ''/tos/request, SignedHeaders=host;x-tos-content-sha256;x-tos-date, Signature=''
        @ signature)"
    using h sig by (simp add: dates_def spec_authorization_def)
  have 8: "debug options = Some True \<longrightarrow>
      fst (signTOSRequest now options) ! 2 = lit ''[TOS Signer] Signature: '' @ signature"
    using signTOSRequest_console [OF u, of now] s n sig
    by (simp add: Let_def dates_def)
  have 9: "length signature = 64" "set signature \<subseteq> set (lit ''0123456789abcdef'')"
    by (simp_all add: signature_def length_spec_hex spec_hex_lower_hex)
  from s u 1 2 3 4 5 6 7 8 9 show ?thesis
    unfolding Let_def signature_def toSign_def kSigning_def kService_def kRegion_def kDate_def
      dates_def
    by blast
qed

theorem signing_key_chain_witness:
  "\<exists>h. snd (signTOSRequest InvalidDate (exampleOptions\<lparr>debug := Some True\<rparr>)) = Inr h
     \<and> hmacSha256 (KeyString (lit ''test-secret-key'')) (lit ''20250101'') =
         Inr (HMAC_SHA256 (TextEncoder_encode (lit ''test-secret-key''))
                (TextEncoder_encode (lit ''20250101'')))
     \<and> (\<exists>signature.
           Headers_get h ''Authorization'' =
             Some (lit ''TOS4-HMAC-SHA256 Credential=test-access-key/20250101/cn-beijing''
               @ lit ''/tos/request, SignedHeaders=host;x-tos-content-sha256;x-tos-date, Signature=''
               @ signature)
           \<and> fst (signTOSRequest InvalidDate (exampleOptions\<lparr>debug := Some True\<rparr>)) ! 2 =
               lit ''[TOS Signer] Signature: '' @ signature
           \<and> length signature = 64)"
proof -
  let ?o = "exampleOptions\<lparr>debug := Some True\<rparr>"
  have "headerValid ?o"
    using exampleOptions_accepted(4) by (simp add: headerValid_def)
  then obtain h where h: "snd (signTOSRequest InvalidDate ?o) = Inr h"
    using signTOSRequest_succeeds [of ?o "lit ''test-secret-key''" InvalidDate]
      exampleOptions_accepted(1,2,3)
    by auto
  have f: "secretAccessKey ?o = Some (lit ''test-secret-key'')"
    "accessKeyId ?o = lit ''test-access-key''" "region ?o = lit ''cn-beijing''"
    "debug ?o = Some True"
    "formatDate (case date ?o of None \<Rightarrow> InvalidDate | Some d \<Rightarrow> d) =
       \<lparr> short = lit ''20250101'', long = lit ''20250101T000000Z'' \<rparr>"
    by (simp_all add: exampleOptions_def formatDate_2025)
  from signing_key_chain [OF h] h show ?thesis
    unfolding Let_def f by (auto simp: lit_def)
qed

text \<open>
  C5.  Whenever \<^verbatim>\<open>signTOSRequest\<close> returns headers, the \<^verbatim>\<open>Authorization\<close> header is
  exactly
  \<^verbatim>\<open>TOS4-HMAC-SHA256 Credential={accessKeyId}/{shortDate}/{region}/tos/request, SignedHeaders=host;x-tos-content-sha256;x-tos-date, Signature={signature}\<close>
  where the signature is the signature of the request as the specification describes
  it, 64 lowercase hexadecimal digits; so the header starts with
  \<^verbatim>\<open>TOS4-HMAC-SHA256 Credential=\<close>, and the scope after the access key identifier is
  \<^verbatim>\<open>{shortDate}/{region}/tos/request\<close> for the region and the date of the request.
\<close>

theorem authorization_header_format:
  assumes "snd (signTOSRequest now options) = Inr h"
  shows
    "\<exists>s u. secretAccessKey options = Some s \<and> uri (key options) = Inr u \<and>
      (let dates = formatDate (case date options of None \<Rightarrow> now | Some d \<Rightarrow> d);
           signature =
             spec_requestSignature s (method' options) u
               (bucket options @ lit ''.'' @ endpoint options)
               (case contentSha256 options of
                  None \<Rightarrow> lit ''UNSIGNED-PAYLOAD''
                | Some c \<Rightarrow> if c = [] then lit ''UNSIGNED-PAYLOAD'' else c)
               (region options) dates
       in Headers_get h ''Authorization'' =
            Some (lit ''TOS4-HMAC-SHA256 Credential='' @ accessKeyId options @ lit ''/''
              @ short dates @ lit ''/'' @ region options
              @ lit ''/tos/request, SignedHeaders=host;x-tos-content-sha256;x-tos-date, Signature=''
              @ signature)
          \<and> length signature = 64
          \<and> set signature \<subseteq> set (lit ''0123456789abcdef'')
          \<and> (\<exists>rest. Headers_get h ''Authorization'' =
                Some (lit ''TOS4-HMAC-SHA256 Credential='' @ rest))
          \<and> credentialScope (short dates) (region options) =
              short dates @ lit ''/'' @ region options @ lit ''/tos/request'')"
proof -
  from signTOSRequest_result [OF assms] obtain s u where
    s: "secretAccessKey options = Some s" and u: "uri (key options) = Inr u"
    and h: "Headers_get h ''Authorization'' =
      Some (spec_authorization (accessKeyId options)
        (short (formatDate (case date options of None \<Rightarrow> now | Some d \<Rightarrow> d)))
        (region options)
        (spec_requestSignature s (method' options) u
           (bucket options @ lit ''.'' @ endpoint options)
           (payloadHash (contentSha256 options)) (region options)
           (formatDate (case date options of None \<Rightarrow> now | Some d \<Rightarrow> d))))"
    by (auto simp: header_names)
  define dates where "dates = formatDate (case date options of None \<Rightarrow> now | Some d \<Rightarrow> d)"
  define signature where
    "signature = spec_requestSignature s (method' options) u
       (bucket options @ lit ''.'' @ endpoint options)
       (case contentSha256 options of
          None \<Rightarrow> lit ''UNSIGNED-PAYLOAD''
        | Some c \<Rightarrow> if c = [] then lit ''UNSIGNED-PAYLOAD'' else c)
       (region options) dates"
  have p: "payloadHash (contentSha256 options) =
      (case contentSha256 options of
         None \<Rightarrow> lit ''UNSIGNED-PAYLOAD''
       | Some c \<Rightarrow> if c = [] then lit ''UNSIGNED-PAYLOAD'' else c)"
    by (simp add: payloadHash_def logicalOr_def)
  have a: "Headers_get h ''Authorization'' =
      Some (lit ''TOS4-HMAC-SHA256 Credential='' @ accessKeyId options @ lit ''/''
        @ short dates @ lit ''/'' @ region options
        @ lit ''/tos/request, SignedHeaders=host;x-tos-content-sha256;x-tos-date, Signature=''
        @ signature)"
    using h by (simp add: p dates_def signature_def spec_authorization_def)
  then have b: "\<exists>rest. Headers_get h ''Authorization'' =
      Some (lit ''TOS4-HMAC-SHA256 Credential='' @ rest)"
    by blast
  have l: "length signature = 64" "set signature \<subseteq> set (lit ''0123456789abcdef'')"
    unfolding signature_def by (rule spec_requestSignature_hex)+
  have c: "credentialScope (short dates) (region options) =
      short dates @ lit ''/'' @ region options @ lit ''/tos/request''"
    by (simp add: credentialScope_def)
  from s u a b l c show ?thesis
    unfolding Let_def signature_def dates_def by blast
qed

theorem authorization_header_format_witness:
  "\<exists>h. snd (signTOSRequest InvalidDate exampleOptions) = Inr h
     \<and> Headers_get h ''Authorization'' =
         Some (lit ''TOS4-HMAC-SHA256 Credential=test-access-key/20250101/cn-beijing''
           @ lit ''/tos/request, SignedHeaders=host;x-tos-content-sha256;x-tos-date, Signature=''
           @ spec_requestSignature (lit ''test-secret-key'') (lit ''PUT'')
               (lit ''/test-file.txt'') (lit ''test-bucket.tos-cn-beijing.volces.com'')
               (lit ''test-sha256'') (lit ''cn-beijing'')
               \<lparr> short = lit ''20250101'', long = lit ''20250101T000000Z'' \<rparr>)"
proof -
  obtain h where h: "snd (signTOSRequest InvalidDate exampleOptions) = Inr h"
    using exampleOptions_signed by blast
  have f: "secretAccessKey exampleOptions = Some (lit ''test-secret-key'')"
    "accessKeyId exampleOptions = lit ''test-access-key''"
    "region exampleOptions = lit ''cn-beijing''"
    "method' exampleOptions = lit ''PUT''"
    "bucket exampleOptions @ lit ''.'' @ endpoint exampleOptions =
       lit ''test-bucket.tos-cn-beijing.volces.com''"
    "contentSha256 exampleOptions = Some (lit ''test-sha256'')"
    "uri (key exampleOptions) = Inr (lit ''/test-file.txt'')"
    "formatDate (case date exampleOptions of None \<Rightarrow> InvalidDate | Some d \<Rightarrow> d) =
       \<lparr> short = lit ''20250101'', long = lit ''20250101T000000Z'' \<rparr>"
    by (simp_all add: exampleOptions_def formatDate_2025 encode_eval)
  from authorization_header_format [OF h] h show ?thesis
    unfolding Let_def f by (auto simp: lit_def)
qed

text \<open>
  C6, as stated, fails: \<^verbatim>\<open>headers.set\<close> rejects a value with a code unit above U+00FF,
  so a request for the bucket U+6587 is rejected with a \<^verbatim>\<open>TypeError\<close> and no headers
  are returned; and it removes leading and trailing white space, so the content type
  \<^verbatim>\<open> text/plain \<close> of the caller is returned as \<^verbatim>\<open>text/plain\<close>.
\<close>

theorem header_values_rejected_or_trimmed:
  "snd (signTOSRequest InvalidDate (exampleOptions\<lparr>bucket := [0x6587]\<rparr>)) = Inl TypeError
   \<and> (\<exists>h. snd (signTOSRequest InvalidDate
                  (exampleOptions\<lparr>contentType := Some (lit '' text/plain '')\<rparr>)) = Inr h
          \<and> Headers_get h ''Content-Type'' = Some (lit ''text/plain''))
   \<and> lit ''text/plain'' \<noteq> lit '' text/plain ''"
proof (intro conjI)
  have u: "uri (key exampleOptions) = Inr (lit ''/test-file.txt'')"
    by (simp add: exampleOptions_def encode_eval)
  show "snd (signTOSRequest InvalidDate (exampleOptions\<lparr>bucket := [0x6587]\<rparr>)) = Inl TypeError"
    by (simp add: signTOSRequest_outcome u)
      (simp add: exampleOptions_def header_eval)
  show "\<exists>h. snd (signTOSRequest InvalidDate
                  (exampleOptions\<lparr>contentType := Some (lit '' text/plain '')\<rparr>)) = Inr h
          \<and> Headers_get h ''Content-Type'' = Some (lit ''text/plain'')"
    by (simp add: signTOSRequest_outcome u)
      (simp add: exampleOptions_def header_eval Let_def header_names)
  show "lit ''text/plain'' \<noteq> lit '' text/plain ''"
    by (simp add: lit_def)
qed

text \<open>
  C6, amended.  Whenever \<^verbatim>\<open>signTOSRequest\<close> returns headers, they are exactly these
  five: \<^verbatim>\<open>Host\<close>, the bucket, a dot and the endpoint; \<^verbatim>\<open>X-Tos-Date\<close>, the long
  form of the date; \<^verbatim>\<open>X-Tos-Content-Sha256\<close>, the payload hash of the caller, or
  \<^verbatim>\<open>UNSIGNED-PAYLOAD\<close> when none (or an empty one) was supplied; \<^verbatim>\<open>Authorization\<close>, with
  the access key identifier, the credential scope and the signature of the request;
  and \<^verbatim>\<open>Content-Type\<close>, the content type of the caller or
  \<^verbatim>\<open>application/octet-stream\<close>; the host, the payload hash and the content type are
  stored without their leading and trailing white space, which leaves a non-empty value
  that neither starts nor ends with white space as it is.  Headers are returned exactly
  when the key has no unpaired surrogate, the secret is not empty and the header values
  are accepted: the host, the payload hash and the content type have no code unit above
  U+00FF and, without their leading and trailing white space, no NUL, line feed or
  carriage return, and the access key identifier and the region have no code unit above
  U+00FF and no NUL, line feed or carriage return.
\<close>

theorem signTOSRequest_five_headers:
  "(snd (signTOSRequest now options) = Inr h \<longrightarrow>
      (\<exists>s u. secretAccessKey options = Some s \<and> uri (key options) = Inr u
         \<and> h =
             [(''Host'', headerValueNormalize (bucket options @ lit ''.'' @ endpoint options)),
              (''X-Tos-Date'',
                 long (formatDate (case date options of None \<Rightarrow> now | Some d \<Rightarrow> d))),
              (''X-Tos-Content-Sha256'',
                 headerValueNormalize
                   (case contentSha256 options of
                      None \<Rightarrow> lit ''UNSIGNED-PAYLOAD''
                    | Some c \<Rightarrow> if c = [] then lit ''UNSIGNED-PAYLOAD'' else c)),
              (''Authorization'',
                 lit ''TOS4-HMAC-SHA256 Credential='' @ accessKeyId options @ lit ''/''
                   @ short (formatDate (case date options of None \<Rightarrow> now | Some d \<Rightarrow> d))
                   @ lit ''/'' @ region options
                   @ lit ''/tos/request, SignedHeaders=host;x-tos-content-sha256;x-tos-date, Signature=''
                   @ spec_requestSignature s (method' options) u
                       (bucket options @ lit ''.'' @ endpoint options)
                       (case contentSha256 options of
                          None \<Rightarrow> lit ''UNSIGNED-PAYLOAD''
                        | Some c \<Rightarrow> if c = [] then lit ''UNSIGNED-PAYLOAD'' else c)
                       (region options)
                       (formatDate (case date options of None \<Rightarrow> now | Some d \<Rightarrow> d))),
              (''Content-Type'',
                 headerValueNormalize
                   (case contentType options of
                      None \<Rightarrow> lit ''application/octet-stream'' | Some c \<Rightarrow> c))])
      \<and> length h = 5)
   \<and> ((\<exists>h'. snd (signTOSRequest now options) = Inr h') \<longleftrightarrow>
        isWellFormed (key options) \<and> (\<exists>s. secretAccessKey options = Some s \<and> s \<noteq> [])
        \<and> headerValid options)
   \<and> (v \<noteq> [] \<and> \<not> isHTTPWhitespace (hd v) \<and> \<not> isHTTPWhitespace (last v) \<longrightarrow>
        headerValueNormalize v = v)"
proof (intro conjI impI)
  assume r: "snd (signTOSRequest now options) = Inr h"
  have p: "payloadHash (contentSha256 options) =
      (case contentSha256 options of
         None \<Rightarrow> lit ''UNSIGNED-PAYLOAD''
       | Some c \<Rightarrow> if c = [] then lit ''UNSIGNED-PAYLOAD'' else c)"
    by (simp add: payloadHash_def logicalOr_def)
  from signTOSRequest_result [OF r]
  show "\<exists>s u. secretAccessKey options = Some s \<and> uri (key options) = Inr u
         \<and> h =
             [(''Host'', headerValueNormalize (bucket options @ lit ''.'' @ endpoint options)),
              (''X-Tos-Date'',
                 long (formatDate (case date options of None \<Rightarrow> now | Some d \<Rightarrow> d))),
              (''X-Tos-Content-Sha256'',
                 headerValueNormalize
                   (case contentSha256 options of
                      None \<Rightarrow> lit ''UNSIGNED-PAYLOAD''
                    | Some c \<Rightarrow> if c = [] then lit ''UNSIGNED-PAYLOAD'' else c)),
              (''Authorization'',
                 lit ''TOS4-HMAC-SHA256 Credential='' @ accessKeyId options @ lit ''/''
                   @ short (formatDate (case date options of None \<Rightarrow> now | Some d \<Rightarrow> d))
                   @ lit ''/'' @ region options
                   @ lit ''/tos/request, SignedHeaders=host;x-tos-content-sha256;x-tos-date, Signature=''
                   @ spec_requestSignature s (method' options) u
                       (bucket options @ lit ''.'' @ endpoint options)
                       (case contentSha256 options of
                          None \<Rightarrow> lit ''UNSIGNED-PAYLOAD''
                        | Some c \<Rightarrow> if c = [] then lit ''UNSIGNED-PAYLOAD'' else c)
                       (region options)
                       (formatDate (case date options of None \<Rightarrow> now | Some d \<Rightarrow> d))),
              (''Content-Type'',
                 headerValueNormalize
                   (case contentType options of
                      None \<Rightarrow> lit ''application/octet-stream'' | Some c \<Rightarrow> c))]"
    unfolding p spec_authorization_def by blast
  from signTOSRequest_result [OF r] show "length h = 5"
    by auto
next
  show "(\<exists>h'. snd (signTOSRequest now options) = Inr h') \<longleftrightarrow>
        isWellFormed (key options) \<and> (\<exists>s. secretAccessKey options = Some s \<and> s \<noteq> [])
        \<and> headerValid options"
  proof
    assume "\<exists>h'. snd (signTOSRequest now options) = Inr h'"
    then obtain h' where "snd (signTOSRequest now options) = Inr h'"
      by blast
    from signTOSRequest_result [OF this] uri_wellFormed [of "key options"]
    show "isWellFormed (key options) \<and> (\<exists>s. secretAccessKey options = Some s \<and> s \<noteq> [])
        \<and> headerValid options"
      by blast
  next
    assume "isWellFormed (key options) \<and> (\<exists>s. secretAccessKey options = Some s \<and> s \<noteq> [])
        \<and> headerValid options"
    then show "\<exists>h'. snd (signTOSRequest now options) = Inr h'"
      using signTOSRequest_succeeds [of options _ now] by blast
  qed
next
  assume "v \<noteq> [] \<and> \<not> isHTTPWhitespace (hd v) \<and> \<not> isHTTPWhitespace (last v)"
  then show "headerValueNormalize v = v"
    using headerValueNormalize_id [of v] by simp
qed

theorem signTOSRequest_five_headers_witness:
  "lit ''test-bucket.tos-cn-beijing.volces.com'' \<noteq> []
   \<and> \<not> isHTTPWhitespace (hd (lit ''test-bucket.tos-cn-beijing.volces.com''))
   \<and> \<not> isHTTPWhitespace (last (lit ''test-bucket.tos-cn-beijing.volces.com''))
   \<and> headerValueNormalize (lit ''test-bucket.tos-cn-beijing.volces.com'') =
       lit ''test-bucket.tos-cn-beijing.volces.com''
   \<and> (\<exists>h. snd (signTOSRequest InvalidDate exampleOptions) = Inr h
         \<and> length h = 5
         \<and> Headers_get h ''Host'' = Some (lit ''test-bucket.tos-cn-beijing.volces.com'')
         \<and> Headers_get h ''X-Tos-Date'' = Some (lit ''20250101T000000Z'')
         \<and> Headers_get h ''X-Tos-Content-Sha256'' = Some (lit ''test-sha256'')
         \<and> Headers_get h ''Content-Type'' = Some (lit ''text/plain''))"
proof -
  obtain h where h: "snd (signTOSRequest InvalidDate exampleOptions) = Inr h"
    using exampleOptions_signed by blast
  have hyp: "lit ''test-bucket.tos-cn-beijing.volces.com'' \<noteq> []
      \<and> \<not> isHTTPWhitespace (hd (lit ''test-bucket.tos-cn-beijing.volces.com''))
      \<and> \<not> isHTTPWhitespace (last (lit ''test-bucket.tos-cn-beijing.volces.com''))"
    by (simp add: lit_def isHTTPWhitespace_def)
  have f: "bucket exampleOptions @ lit ''.'' @ endpoint exampleOptions =
       lit ''test-bucket.tos-cn-beijing.volces.com''"
    "contentSha256 exampleOptions = Some (lit ''test-sha256'')"
    "contentType exampleOptions = Some (lit ''text/plain'')"
    "formatDate (case date exampleOptions of None \<Rightarrow> InvalidDate | Some d \<Rightarrow> d) =
       \<lparr> short = lit ''20250101'', long = lit ''20250101T000000Z'' \<rparr>"
    by (simp_all add: exampleOptions_def formatDate_2025 lit_def)
  have n: "headerValueNormalize (lit ''test-sha256'') = lit ''test-sha256''"
    "headerValueNormalize (lit ''text/plain'') = lit ''text/plain''"
    "lit ''test-sha256'' \<noteq> []"
    by (simp_all add: lit_def headerValueNormalize_def isHTTPWhitespace_def)
  note t = signTOSRequest_five_headers
    [where now = InvalidDate and options = exampleOptions and h = h
      and v = "lit ''test-bucket.tos-cn-beijing.volces.com''"]
  from t hyp have v: "headerValueNormalize (lit ''test-bucket.tos-cn-beijing.volces.com'') =
      lit ''test-bucket.tos-cn-beijing.volces.com''"
    by blast
  from t h obtain s u where "h =
      [(''Host'', headerValueNormalize (lit ''test-bucket.tos-cn-beijing.volces.com'')),
       (''X-Tos-Date'', lit ''20250101T000000Z''),
       (''X-Tos-Content-Sha256'', headerValueNormalize (lit ''test-sha256'')),
       (''Authorization'',
          lit ''TOS4-HMAC-SHA256 Credential='' @ accessKeyId exampleOptions @ lit ''/''
            @ lit ''20250101'' @ lit ''/'' @ region exampleOptions
            @ lit ''/tos/request, SignedHeaders=host;x-tos-content-sha256;x-tos-date, Signature=''
            @ spec_requestSignature s (method' exampleOptions) u
                (lit ''test-bucket.tos-cn-beijing.volces.com'') (lit ''test-sha256'')
                (region exampleOptions)
                \<lparr> short = lit ''20250101'', long = lit ''20250101T000000Z'' \<rparr>),
       (''Content-Type'', headerValueNormalize (lit ''text/plain''))]"
    unfolding f by (auto simp: n)
  then have r: "length h = 5"
    "Headers_get h ''Host'' = Some (lit ''test-bucket.tos-cn-beijing.volces.com'')"
    "Headers_get h ''X-Tos-Date'' = Some (lit ''20250101T000000Z'')"
    "Headers_get h ''X-Tos-Content-Sha256'' = Some (lit ''test-sha256'')"
    "Headers_get h ''Content-Type'' = Some (lit ''text/plain'')"
    by (simp_all add: v n header_names)
  from hyp have hyps: "lit ''test-bucket.tos-cn-beijing.volces.com'' \<noteq> []"
    "\<not> isHTTPWhitespace (hd (lit ''test-bucket.tos-cn-beijing.volces.com''))"
    "\<not> isHTTPWhitespace (last (lit ''test-bucket.tos-cn-beijing.volces.com''))"
    by (rule conjunct1, rule conjunct2 [THEN conjunct1], rule conjunct2 [THEN conjunct2])
  show ?thesis
    by (intro conjI exI [of _ h]) (fact hyps v h r)+
qed

text \<open>
  C10.  A \<^verbatim>\<open>contentSha256\<close> that is the empty string has the effect of an absent one:
  the console lines and the outcome are the same.  With it, the canonical request (as
  written to the console when \<^verbatim>\<open>debug\<close> is on) has \<^verbatim>\<open>UNSIGNED-PAYLOAD\<close> as the value of
  \<^verbatim>\<open>x-tos-content-sha256\<close> and as its last line, and the result, whenever there is one,
  has it as the \<^verbatim>\<open>X-Tos-Content-Sha256\<close> header.
\<close>

theorem empty_contentSha256_as_absent:
  "signTOSRequest now (options\<lparr>contentSha256 := Some []\<rparr>) =
     signTOSRequest now (options\<lparr>contentSha256 := None\<rparr>)
   \<and> (uri (key options) = Inr u \<and> debug options = Some True \<longrightarrow>
        hd (fst (signTOSRequest now (options\<lparr>contentSha256 := Some []\<rparr>))) =
          lit ''[TOS Signer] Canonical Request: '' @ method' options @ newline @ u @ newline
            @ newline @ lit ''host:'' @ bucket options @ lit ''.'' @ endpoint options @ newline
            @ lit ''x-tos-content-sha256:UNSIGNED-PAYLOAD'' @ newline
            @ lit ''x-tos-date:''
            @ long (formatDate (case date options of None \<Rightarrow> now | Some d \<Rightarrow> d)) @ newline
            @ newline @ lit ''host;x-tos-content-sha256;x-tos-date'' @ newline
            @ lit ''UNSIGNED-PAYLOAD'')
   \<and> (snd (signTOSRequest now (options\<lparr>contentSha256 := Some []\<rparr>)) = Inr h \<longrightarrow>
        Headers_get h ''X-Tos-Content-Sha256'' = Some (lit ''UNSIGNED-PAYLOAD''))"
proof (intro conjI impI)
  show "signTOSRequest now (options\<lparr>contentSha256 := Some []\<rparr>) =
     signTOSRequest now (options\<lparr>contentSha256 := None\<rparr>)"
    by (simp add: signTOSRequest_def Let_def payloadHash_def logicalOr_def
        cong: sum.case_cong)
next
  assume "uri (key options) = Inr u \<and> debug options = Some True"
  then have u: "uri (key (options\<lparr>contentSha256 := Some []\<rparr>)) = Inr u"
    and d: "debug options = Some True"
    by simp_all
  show "hd (fst (signTOSRequest now (options\<lparr>contentSha256 := Some []\<rparr>))) =
          lit ''[TOS Signer] Canonical Request: '' @ method' options @ newline @ u @ newline
            @ newline @ lit ''host:'' @ bucket options @ lit ''.'' @ endpoint options @ newline
            @ lit ''x-tos-content-sha256:UNSIGNED-PAYLOAD'' @ newline
            @ lit ''x-tos-date:''
            @ long (formatDate (case date options of None \<Rightarrow> now | Some d \<Rightarrow> d)) @ newline
            @ newline @ lit ''host;x-tos-content-sha256;x-tos-date'' @ newline
            @ lit ''UNSIGNED-PAYLOAD''"
    using signTOSRequest_console [OF u, of now] d
    by (simp add: Let_def spec_canonicalRequest_def payloadHash_def logicalOr_def newline_def
        lit_def)
next
  assume "snd (signTOSRequest now (options\<lparr>contentSha256 := Some []\<rparr>)) = Inr h"
  from signTOSRequest_result [OF this]
  show "Headers_get h ''X-Tos-Content-Sha256'' = Some (lit ''UNSIGNED-PAYLOAD'')"
    by (auto simp: header_names)
      (simp add: payloadHash_def logicalOr_def headerValueNormalize_def isHTTPWhitespace_def
        lit_def)
qed

theorem empty_contentSha256_as_absent_witness:
  "uri (key (exampleOptions\<lparr>debug := Some True\<rparr>)) = Inr (lit ''/test-file.txt'')
   \<and> debug (exampleOptions\<lparr>debug := Some True\<rparr>) = Some True
   \<and> hd (fst (signTOSRequest InvalidDate
              (exampleOptions\<lparr>debug := Some True, contentSha256 := Some []\<rparr>))) =
       lit ''[TOS Signer] Canonical Request: PUT'' @ newline
         @ lit ''/test-file.txt'' @ newline
         @ newline
         @ lit ''host:test-bucket.tos-cn-beijing.volces.com'' @ newline
         @ lit ''x-tos-content-sha256:UNSIGNED-PAYLOAD'' @ newline
         @ lit ''x-tos-date:20250101T000000Z'' @ newline
         @ newline
         @ lit ''host;x-tos-content-sha256;x-tos-date'' @ newline
         @ lit ''UNSIGNED-PAYLOAD''
   \<and> (\<exists>h. snd (signTOSRequest InvalidDate
                  (exampleOptions\<lparr>debug := Some True, contentSha256 := Some []\<rparr>)) = Inr h
         \<and> Headers_get h ''X-Tos-Content-Sha256'' = Some (lit ''UNSIGNED-PAYLOAD''))"
proof -
  let ?o = "exampleOptions\<lparr>debug := Some True\<rparr>"
  have u: "uri (key ?o) = Inr (lit ''/test-file.txt'')"
    by (simp add: exampleOptions_def encode_eval)
  have d: "debug ?o = Some True"
    by simp
  have "headerValid (?o\<lparr>contentSha256 := Some []\<rparr>)"
    by (simp add: exampleOptions_def header_eval)
  then obtain h where h: "snd (signTOSRequest InvalidDate (?o\<lparr>contentSha256 := Some []\<rparr>)) = Inr h"
    using signTOSRequest_succeeds
      [of "?o\<lparr>contentSha256 := Some []\<rparr>" "lit ''test-secret-key''" InvalidDate]
      exampleOptions_accepted(1,2,3)
    by auto
  have f: "method' ?o = lit ''PUT''" "bucket ?o = lit ''test-bucket''"
    "endpoint ?o = lit ''tos-cn-beijing.volces.com''"
    "long (formatDate (case date ?o of None \<Rightarrow> InvalidDate | Some d \<Rightarrow> d)) =
       lit ''20250101T000000Z''"
    by (simp_all add: exampleOptions_def formatDate_2025)
  from empty_contentSha256_as_absent
    [where now = InvalidDate and options = ?o and u = "lit ''/test-file.txt''" and h = h]
    u d h
  show ?thesis
    unfolding f by (auto simp: lit_def)
qed

lemma signTOSRequest_without_secret:
  "secretAccessKey options = None \<Longrightarrow>
   snd (signTOSRequest now options) =
     (case uri (key options) of Inl e \<Rightarrow> Inl e | Inr u \<Rightarrow> Inl TypeError)"
  by (cases "uri (key options)")
    (simp_all add: signTOSRequest_uri_error signTOSRequest_undefined_secret)

lemmas client_signOptions =
  upload_signOptions_def download_signOptions_def delete_signOptions_def
  exists_signOptions_def

text \<open>
  C3.  The object each of \<^verbatim>\<open>upload\<close>, \<^verbatim>\<open>download\<close>, \<^verbatim>\<open>delete\<close> and \<^verbatim>\<open>exists\<close> passes to
  \<^verbatim>\<open>signTOSRequest\<close> has the secret of the client under \<^verbatim>\<open>accessKeySecret\<close> and no
  \<^verbatim>\<open>secretAccessKey\<close>; so the key of the first HMAC is \<^verbatim>\<open>undefined\<close>, its import fails
  with a \<^verbatim>\<open>TypeError\<close> (unless the object key already made the encoding fail), and
  what the signer writes and returns is the same whatever secret the client was
  constructed with.  The three operations that propagate the failure never succeed and
  \<^verbatim>\<open>exists\<close> answers \<^verbatim>\<open>false\<close>.
\<close>

theorem client_secret_not_used:
  "secretAccessKey (upload_signOptions this b k ct cs) = None
   \<and> secretAccessKey (download_signOptions this b k) = None
   \<and> secretAccessKey (delete_signOptions this b k) = None
   \<and> secretAccessKey (exists_signOptions this b k) = None
   \<and> accessKeySecret (upload_signOptions this b k ct cs) = TOSClientOptions.accessKeySecret this
   \<and> accessKeySecret (download_signOptions this b k) = TOSClientOptions.accessKeySecret this
   \<and> accessKeySecret (delete_signOptions this b k) = TOSClientOptions.accessKeySecret this
   \<and> accessKeySecret (exists_signOptions this b k) = TOSClientOptions.accessKeySecret this
   \<and> (case secretAccessKey (upload_signOptions this b k ct cs) of
         None \<Rightarrow> KeyUndefined | Some x \<Rightarrow> KeyString x) = KeyUndefined
   \<and> hmacSha256 KeyUndefined d = Inl TypeError
   \<and> snd (signTOSRequest now (upload_signOptions this b k ct cs)) =
         (case uri k of Inl e \<Rightarrow> Inl e | Inr u \<Rightarrow> Inl TypeError)
   \<and> snd (signTOSRequest now (download_signOptions this b k)) =
         (case uri k of Inl e \<Rightarrow> Inl e | Inr u \<Rightarrow> Inl TypeError)
   \<and> snd (signTOSRequest now (delete_signOptions this b k)) =
         (case uri k of Inl e \<Rightarrow> Inl e | Inr u \<Rightarrow> Inl TypeError)
   \<and> snd (signTOSRequest now (exists_signOptions this b k)) =
         (case uri k of Inl e \<Rightarrow> Inl e | Inr u \<Rightarrow> Inl TypeError)
   \<and> signTOSRequest now
         (upload_signOptions (this\<lparr>TOSClientOptions.accessKeySecret := other\<rparr>) b k ct cs) =
       signTOSRequest now (upload_signOptions this b k ct cs)
   \<and> signTOSRequest now
         (download_signOptions (this\<lparr>TOSClientOptions.accessKeySecret := other\<rparr>) b k) =
       signTOSRequest now (download_signOptions this b k)
   \<and> signTOSRequest now
         (delete_signOptions (this\<lparr>TOSClientOptions.accessKeySecret := other\<rparr>) b k) =
       signTOSRequest now (delete_signOptions this b k)
   \<and> signTOSRequest now
         (exists_signOptions (this\<lparr>TOSClientOptions.accessKeySecret := other\<rparr>) b k) =
       signTOSRequest now (exists_signOptions this b k)
   \<and> (\<exists>e. upload fetch' now this b k data' options' = Inl e)
   \<and> (\<exists>e. download fetch' now this b k = Inl e)
   \<and> (\<exists>e. delete fetch' now this b k = Inl e)
   \<and> exists fetch' now this b k = False"
proof (intro conjI)
  have none: "secretAccessKey (upload_signOptions this b k ct cs) = None"
    "secretAccessKey (download_signOptions this b k) = None"
    "secretAccessKey (delete_signOptions this b k) = None"
    "secretAccessKey (exists_signOptions this b k) = None" for ct cs
    by (simp_all add: client_signOptions)
  have keys: "key (upload_signOptions this b k ct cs) = k"
    "key (download_signOptions this b k) = k"
    "key (delete_signOptions this b k) = k"
    "key (exists_signOptions this b k) = k" for ct cs
    by (simp_all add: client_signOptions)
  show "secretAccessKey (upload_signOptions this b k ct cs) = None"
    "secretAccessKey (download_signOptions this b k) = None"
    "secretAccessKey (delete_signOptions this b k) = None"
    "secretAccessKey (exists_signOptions this b k) = None"
    by (rule none)+
  show "accessKeySecret (upload_signOptions this b k ct cs) = TOSClientOptions.accessKeySecret this"
    "accessKeySecret (download_signOptions this b k) = TOSClientOptions.accessKeySecret this"
    "accessKeySecret (delete_signOptions this b k) = TOSClientOptions.accessKeySecret this"
    "accessKeySecret (exists_signOptions this b k) = TOSClientOptions.accessKeySecret this"
    by (simp_all add: client_signOptions)
  show "(case secretAccessKey (upload_signOptions this b k ct cs) of
         None \<Rightarrow> KeyUndefined | Some x \<Rightarrow> KeyString x) = KeyUndefined"
    by (simp add: none)
  show "hmacSha256 KeyUndefined d = Inl TypeError"
    by (rule hmacSha256_undefined)
  show up: "snd (signTOSRequest now (upload_signOptions this b k ct cs)) =
         (case uri k of Inl e \<Rightarrow> Inl e | Inr u \<Rightarrow> Inl TypeError)" for ct cs
    using signTOSRequest_without_secret [OF none(1), where now = now] by (simp add: keys)
  show down: "snd (signTOSRequest now (download_signOptions this b k)) =
         (case uri k of Inl e \<Rightarrow> Inl e | Inr u \<Rightarrow> Inl TypeError)"
    using signTOSRequest_without_secret [OF none(2), where now = now] by (simp add: keys)
  show del: "snd (signTOSRequest now (delete_signOptions this b k)) =
         (case uri k of Inl e \<Rightarrow> Inl e | Inr u \<Rightarrow> Inl TypeError)"
    using signTOSRequest_without_secret [OF none(3), where now = now] by (simp add: keys)
  show ex: "snd (signTOSRequest now (exists_signOptions this b k)) =
         (case uri k of Inl e \<Rightarrow> Inl e | Inr u \<Rightarrow> Inl TypeError)"
    using signTOSRequest_without_secret [OF none(4), where now = now] by (simp add: keys)
  show "signTOSRequest now
         (upload_signOptions (this\<lparr>TOSClientOptions.accessKeySecret := other\<rparr>) b k ct cs) =
       signTOSRequest now (upload_signOptions this b k ct cs)"
    by (simp add: signTOSRequest_def upload_signOptions_def Let_def cong: sum.case_cong)
  show "signTOSRequest now
         (download_signOptions (this\<lparr>TOSClientOptions.accessKeySecret := other\<rparr>) b k) =
       signTOSRequest now (download_signOptions this b k)"
    by (simp add: signTOSRequest_def download_signOptions_def Let_def cong: sum.case_cong)
  show "signTOSRequest now
         (delete_signOptions (this\<lparr>TOSClientOptions.accessKeySecret := other\<rparr>) b k) =
       signTOSRequest now (delete_signOptions this b k)"
    by (simp add: signTOSRequest_def delete_signOptions_def Let_def cong: sum.case_cong)
  show "signTOSRequest now
         (exists_signOptions (this\<lparr>TOSClientOptions.accessKeySecret := other\<rparr>) b k) =
       signTOSRequest now (exists_signOptions this b k)"
    by (simp add: signTOSRequest_def exists_signOptions_def Let_def cong: sum.case_cong)
  show "\<exists>e. upload fetch' now this b k data' options' = Inl e"
    by (cases data'; cases "uri k") (simp_all add: upload_def Let_def up)
  show "\<exists>e. download fetch' now this b k = Inl e"
    by (cases "uri k") (simp_all add: download_def down)
  show "\<exists>e. delete fetch' now this b k = Inl e"
    by (cases "uri k") (simp_all add: delete_def del)
  show "exists fetch' now this b k = False"
    by (cases "uri k") (simp_all add: exists_def ex)
qed

text \<open>
  C2 at the input \<^verbatim>\<open>TOSClient.list\<close> gives the signer.  The canonical request has the
  method, the canonical URI, an empty third line, the three canonical headers, an empty
  line, the signed header names and the payload hash; the query string the caller
  passes is not read: changing it changes nothing, and for the query string
  \<^verbatim>\<open>list-type=2\<close> the third line of the canonical request is empty.
\<close>

theorem query_string_not_in_canonical_request:
  "signTOSRequest now (options\<lparr>queryString := q\<rparr>) = signTOSRequest now options
   \<and> queryString
        (list_signOptions exampleClient (lit ''test-bucket'') [] (lit ''list-type=2'')) =
       lit ''list-type=2''
   \<and> hd (fst (signTOSRequest (TimeValue 1735689600000)
        (list_signOptions exampleClient (lit ''test-bucket'') [] (lit ''list-type=2'')))) =
       lit ''[TOS Signer] Canonical Request: GET'' @ newline
         @ lit ''/'' @ newline
         @ newline
         @ lit ''host:test-bucket.tos-cn-beijing.volces.com'' @ newline
         @ lit ''x-tos-content-sha256:UNSIGNED-PAYLOAD'' @ newline
         @ lit ''x-tos-date:20250101T000000Z'' @ newline
         @ newline
         @ lit ''host;x-tos-content-sha256;x-tos-date'' @ newline
         @ lit ''UNSIGNED-PAYLOAD''"
proof (intro conjI)
  show "signTOSRequest now (options\<lparr>queryString := q\<rparr>) = signTOSRequest now options"
    by (simp add: signTOSRequest_def Let_def cong: sum.case_cong)
  show "queryString
        (list_signOptions exampleClient (lit ''test-bucket'') [] (lit ''list-type=2'')) =
       lit ''list-type=2''"
    by (simp add: list_signOptions_def)
  let ?o = "list_signOptions exampleClient (lit ''test-bucket'') [] (lit ''list-type=2'')"
  have u: "uri (key ?o) = Inr (lit ''/'')"
    by (simp add: list_signOptions_def uri_empty)
  have d: "debug ?o = Some True" "date ?o = None" "method' ?o = lit ''GET''"
    "bucket ?o = lit ''test-bucket''" "endpoint ?o = lit ''tos-cn-beijing.volces.com''"
    "contentSha256 ?o = Some (lit ''UNSIGNED-PAYLOAD'')"
    by (simp_all add: list_signOptions_def exampleClient_def)
  have p: "payloadHash (Some (lit ''UNSIGNED-PAYLOAD'')) = lit ''UNSIGNED-PAYLOAD''"
    by (simp add: payloadHash_def logicalOr_def lit_def)
  show "hd (fst (signTOSRequest (TimeValue 1735689600000) ?o)) =
       lit ''[TOS Signer] Canonical Request: GET'' @ newline
         @ lit ''/'' @ newline
         @ newline
         @ lit ''host:test-bucket.tos-cn-beijing.volces.com'' @ newline
         @ lit ''x-tos-content-sha256:UNSIGNED-PAYLOAD'' @ newline
         @ lit ''x-tos-date:20250101T000000Z'' @ newline
         @ newline
         @ lit ''host;x-tos-content-sha256;x-tos-date'' @ newline
         @ lit ''UNSIGNED-PAYLOAD''"
    using signTOSRequest_console [OF u, of "TimeValue 1735689600000"]
    by (simp add: Let_def d p formatDate_2025 spec_canonicalRequest_def newline_def)
      (simp add: lit_def)
qed

lemma unat_digitChar: "d < 10 \<Longrightarrow> unat (digitChar d) = 48 + d"
proof -
  assume "d < 10"
  then have "unat (of_nat (48 + d) :: 16 word) = 48 + d"
    by (subst unat_of_nat) simp
  with \<open>d < 10\<close> show ?thesis
    by (simp only: digitChar_def if_True)
qed

lemma twoDigits_inject:
  assumes "0 \<le> a" "a \<le> 99" "0 \<le> b" "b \<le> 99" "twoDigits a = twoDigits b"
  shows "a = b"
proof -
  have lt: "nat a div 10 < 10" "nat a mod 10 < 10" "nat b div 10 < 10" "nat b mod 10 < 10"
    using assms(1-4) by (simp_all add: div_less_iff_less_mult)
  from assms(5) have "unat (digitChar (nat a div 10)) = unat (digitChar (nat b div 10))"
    "unat (digitChar (nat a mod 10)) = unat (digitChar (nat b mod 10))"
    by (simp_all add: twoDigits_def)
  then have "nat a div 10 = nat b div 10" "nat a mod 10 = nat b mod 10"
    using lt by (simp_all add: unat_digitChar)
  then have "nat a = nat b"
    by (metis div_mult_mod_eq)
  with assms(1,3) show ?thesis by simp
qed

lemma SecFromTime_next: "SecFromTime (t + 1000) \<noteq> SecFromTime t"
proof -
  have "(t + 1000) div 1000 = t div 1000 + 1"
    by simp
  moreover have "(x + 1) mod 60 \<noteq> x mod 60" for x :: int
    by (simp add: mod_eq_dvd_iff)
  ultimately show ?thesis
    by (simp add: SecFromTime_def)
qed

text \<open>
  The long form of a date ends with the two digits of the seconds and \<^verbatim>\<open>Z\<close>, so the long
  forms of two instants one second apart differ, and so do the \<^verbatim>\<open>X-Tos-Date\<close> headers of
  two requests signed at them.
\<close>

lemma long_ends_with_seconds:
  "\<exists>front. long (formatDate (TimeValue t)) = front @ twoDigits (SecFromTime t) @ lit ''Z''"
proof -
  have "padStart 2 (lit ''0'') (String (Some (SecFromTime t))) = twoDigits (SecFromTime t)"
    using time_of_day_bounds [of t] by (intro pad_two_digits) simp_all
  then have "long (formatDate (TimeValue t)) =
      (String (getUTCFullYear (TimeValue t))
        @ padStart 2 (lit ''0'') (String (map_option (\<lambda>m. m + 1) (getUTCMonth (TimeValue t))))
        @ padStart 2 (lit ''0'') (String (getUTCDate (TimeValue t)))
        @ lit ''T'' @ padStart 2 (lit ''0'') (String (getUTCHours (TimeValue t)))
        @ padStart 2 (lit ''0'') (String (getUTCMinutes (TimeValue t))))
      @ twoDigits (SecFromTime t) @ lit ''Z''"
    by (simp add: formatDate_def Let_def getUTCSeconds_def)
  then show ?thesis by blast
qed

lemma long_next_second:
  "long (formatDate (TimeValue (t + 1000))) \<noteq> long (formatDate (TimeValue t))"
proof
  assume eq: "long (formatDate (TimeValue (t + 1000))) = long (formatDate (TimeValue t))"
  obtain f where f: "long (formatDate (TimeValue t)) = f @ twoDigits (SecFromTime t) @ lit ''Z''"
    using long_ends_with_seconds by blast
  obtain g where g: "long (formatDate (TimeValue (t + 1000))) =
      g @ twoDigits (SecFromTime (t + 1000)) @ lit ''Z''"
    using long_ends_with_seconds by blast
  have "length (twoDigits (SecFromTime (t + 1000)) @ lit ''Z'') =
      length (twoDigits (SecFromTime t) @ lit ''Z'')"
    by (simp add: twoDigits_def)
  with eq f g have "twoDigits (SecFromTime (t + 1000)) @ lit ''Z'' =
      twoDigits (SecFromTime t) @ lit ''Z''"
    by (metis append_eq_append_conv)
  then have "twoDigits (SecFromTime (t + 1000)) = twoDigits (SecFromTime t)"
    by simp
  then have "SecFromTime (t + 1000) = SecFromTime t"
    using time_of_day_bounds [of t] time_of_day_bounds [of "t + 1000"]
    by (intro twoDigits_inject) simp_all
  with SecFromTime_next show False by blast
qed

lemma x_tos_date_next_second:
  assumes "isWellFormed (key options)" and "secretAccessKey options = Some s" and "s \<noteq> []"
    and "headerValid options"
  shows "\<exists>h h'.
    snd (signTOSRequest now (options\<lparr>date := Some (TimeValue t)\<rparr>)) = Inr h
    \<and> snd (signTOSRequest now' (options\<lparr>date := Some (TimeValue (t + 1000))\<rparr>)) = Inr h'
    \<and> Headers_get h ''X-Tos-Date'' = Some (long (formatDate (TimeValue t)))
    \<and> Headers_get h' ''X-Tos-Date'' = Some (long (formatDate (TimeValue (t + 1000))))
    \<and> Headers_get h ''X-Tos-Date'' \<noteq> Headers_get h' ''X-Tos-Date''"
proof -
  obtain u where u: "uri (key options) = Inr u"
    using assms(1) uri_wellFormed by blast
  have a: "uri (key (options\<lparr>date := Some (TimeValue t)\<rparr>)) = Inr u"
    "secretAccessKey (options\<lparr>date := Some (TimeValue t)\<rparr>) = Some s"
    and b: "uri (key (options\<lparr>date := Some (TimeValue (t + 1000))\<rparr>)) = Inr u"
    "secretAccessKey (options\<lparr>date := Some (TimeValue (t + 1000))\<rparr>) = Some s"
    using u assms(2) by simp_all
  have v: "headerValid (options\<lparr>date := Some (TimeValue t)\<rparr>)"
    "headerValid (options\<lparr>date := Some (TimeValue (t + 1000))\<rparr>)"
    using assms(4) by (simp_all add: headerValid_def)
  show ?thesis
    using signTOSRequest_headers [OF a assms(3), of now]
      signTOSRequest_headers [OF b assms(3), of now'] long_next_second [of t] v
    by (simp add: Let_def header_names)
qed

text \<open>
  C8.  With a date supplied, the console lines and the outcome of \<^verbatim>\<open>signTOSRequest\<close>
  (every header of the result) are a function of the options alone: they are the same
  whatever the clock shows at either call, and the function has no other input.  The
  outcome does not depend on the \<^verbatim>\<open>debug\<close> property either.
\<close>

theorem signTOSRequest_deterministic:
  assumes "date options = Some d"
  shows "signTOSRequest now options = signTOSRequest now' options
    \<and> snd (signTOSRequest now (options\<lparr>debug := b\<rparr>)) = snd (signTOSRequest now' options)
    \<and> (\<forall>h h' name. snd (signTOSRequest now options) = Inr h
          \<and> snd (signTOSRequest now' options) = Inr h'
          \<longrightarrow> Headers_get h name = Headers_get h' name)"
proof (intro conjI)
  show c: "signTOSRequest now options = signTOSRequest now' options"
    using assms by (simp add: signTOSRequest_def)
  show "snd (signTOSRequest now (options\<lparr>debug := b\<rparr>)) = snd (signTOSRequest now' options)"
    using assms
    by (simp add: signTOSRequest_outcome Let_def headerValid_def split: sum.split option.split)
  show "\<forall>h h' name. snd (signTOSRequest now options) = Inr h
          \<and> snd (signTOSRequest now' options) = Inr h'
          \<longrightarrow> Headers_get h name = Headers_get h' name"
    using c by auto
qed

theorem signTOSRequest_deterministic_witness:
  "date exampleOptions = Some (TimeValue 1735689600000)
   \<and> signTOSRequest (TimeValue 0) exampleOptions = signTOSRequest InvalidDate exampleOptions
   \<and> (\<exists>h. snd (signTOSRequest (TimeValue 0) exampleOptions) = Inr h
         \<and> snd (signTOSRequest InvalidDate exampleOptions) = Inr h)"
proof -
  have d: "date exampleOptions = Some (TimeValue 1735689600000)"
    by (simp add: exampleOptions_def)
  have "\<exists>h. snd (signTOSRequest (TimeValue 0) exampleOptions) = Inr h"
    by (rule exampleOptions_signed)
  with d signTOSRequest_deterministic [OF d, of "TimeValue 0" InvalidDate]
  show ?thesis
    by auto
qed

end
